theory Spec2Isabelle
  imports
    Main
    "HOL-Library.AList"
    "HOL-Library.Sublist"
    "HOL-Library.Multiset"
    "HOL-Library.Char_ord"
    "HOL-Library.List_Lexorder"
    "HOL-Library.Product_Lexorder"
begin

section \<open>The publishing script \<^verbatim>\<open>publish.py\<close>\<close>

text \<open>
  The script turns annotated notebooks and markdown documents into a workshop site.
  This theory embeds the parts of \<^verbatim>\<open>src/publish.py\<close> that decide the properties
  below: the index builder's ordering (\<^verbatim>\<open>create_index\<close>), the table of contents
  (\<^verbatim>\<open>generate_toc_from_markdown\<close>), the asset bundler (\<^verbatim>\<open>create_data_zip\<close>), the
  notebook processor (\<^verbatim>\<open>process_notebook\<close>) and the driver (\<^verbatim>\<open>main\<close>).

  Conventions. A Python \<^verbatim>\<open>str\<close> is a \<^typ>\<open>string\<close>; a \<^typ>\<open>char\<close> stands for one code
  point below 256. Python compares strings code point by code point, a proper prefix
  being smaller: the lexicographic order of \<^typ>\<open>string\<close>. A raised exception is a
  value \<open>Inl e\<close>; \<^verbatim>\<open>sys.exit(n)\<close> raises \<^verbatim>\<open>SystemExit\<close>. What the script prints
  is kept, where a property speaks of it, as a list of events.
\<close>

subsection \<open>Strings\<close>

definition nl :: string where
  "nl = [CHR 0x0A]"

definition quote :: string where
  "quote = [CHR 0x27]"

text \<open>\<^verbatim>\<open>sep.join(xs)\<close> and \<^verbatim>\<open>s.split(c)\<close> for a one-character separator.\<close>

fun join :: "string \<Rightarrow> string list \<Rightarrow> string" where
  "join sep [] = []"
| "join sep [x] = x"
| "join sep (x # y # ys) = x @ sep @ join sep (y # ys)"

fun split_on :: "char \<Rightarrow> string \<Rightarrow> string list" where
  "split_on c [] = [[]]"
| "split_on c (x # xs) =
     (if x = c then [] # split_on c xs
      else (case split_on c xs of [] \<Rightarrow> [[x]] | w # ws \<Rightarrow> (x # w) # ws))"

text \<open>
  The character classes of Python 3 on code points below 256: \<^verbatim>\<open>str.isspace\<close> (which is
  also the regular expression class \<^verbatim>\<open>\s\<close>), the class \<^verbatim>\<open>\w\<close>, and \<^verbatim>\<open>str.lower\<close>.
\<close>

definition isspace :: "char \<Rightarrow> bool" where
  "isspace c =
     (let n = (of_char c :: nat)
      in (9 \<le> n \<and> n \<le> 13) \<or> (28 \<le> n \<and> n \<le> 32) \<or> n = 0x85 \<or> n = 0xA0)"

definition is_word_char :: "char \<Rightarrow> bool" where
  "is_word_char c =
     (let n = (of_char c :: nat)
      in (0x30 \<le> n \<and> n \<le> 0x39) \<or> (0x41 \<le> n \<and> n \<le> 0x5A) \<or> n = 0x5F \<or>
         (0x61 \<le> n \<and> n \<le> 0x7A) \<or> n = 0xAA \<or> n = 0xB2 \<or> n = 0xB3 \<or> n = 0xB5 \<or>
         n = 0xB9 \<or> n = 0xBA \<or> (0xBC \<le> n \<and> n \<le> 0xBE) \<or> (0xC0 \<le> n \<and> n \<le> 0xD6) \<or>
         (0xD8 \<le> n \<and> n \<le> 0xF6) \<or> 0xF8 \<le> n)"

definition lower_char :: "char \<Rightarrow> char" where
  "lower_char c =
     (let n = (of_char c :: nat)
      in if (0x41 \<le> n \<and> n \<le> 0x5A) \<or> (0xC0 \<le> n \<and> n \<le> 0xDE \<and> n \<noteq> 0xD7)
         then char_of (n + 0x20) else c)"

definition lower :: "string \<Rightarrow> string" where
  "lower s = map lower_char s"

definition strip :: "string \<Rightarrow> string" where
  "strip s = rev (dropWhile isspace (rev (dropWhile isspace s)))"

text \<open>\<^verbatim>\<open>s.split()\<close>: the maximal runs of characters that are not whitespace.\<close>

fun split_ws :: "string \<Rightarrow> string \<Rightarrow> string list" where
  "split_ws cur [] = (if cur = [] then [] else [cur])"
| "split_ws cur (c # cs) =
     (if isspace c then (if cur = [] then split_ws [] cs else cur # split_ws [] cs)
      else split_ws (cur @ [c]) cs)"

definition split_py :: "string \<Rightarrow> string list" where
  "split_py s = split_ws [] s"

subsection \<open>The table of contents\<close>

text \<open>
  \<^verbatim>\<open>re.findall(r'^## (.+)$', markdown_content, re.MULTILINE)\<close>. With \<^verbatim>\<open>MULTILINE\<close>,
  \<^verbatim>\<open>^\<close> matches at the start of the text and after every newline, \<^verbatim>\<open>$\<close> at its end and
  before every newline, and \<^verbatim>\<open>.\<close> matches every character but the newline. The scanner
  below walks the text as the matcher does: \<open>bol\<close> says that the position is at the
  start of a line; a match there is \<^verbatim>\<open>## \<close> followed by the longest non-empty run of
  characters that are not newlines, and the search goes on behind the match.
\<close>

function findall_h2 :: "bool \<Rightarrow> string \<Rightarrow> string list" where
  "findall_h2 bol [] = []"
| "findall_h2 bol (c # cs) =
     (if bol \<and> prefix ''## '' (c # cs) \<and> takeWhile (\<lambda>x. x \<noteq> CHR 0x0A) (drop 3 (c # cs)) \<noteq> []
      then takeWhile (\<lambda>x. x \<noteq> CHR 0x0A) (drop 3 (c # cs))
             # findall_h2 False (dropWhile (\<lambda>x. x \<noteq> CHR 0x0A) (drop 3 (c # cs)))
      else findall_h2 (c = CHR 0x0A) cs)"
  by pat_completeness auto
termination
proof (relation "measure (\<lambda>(bol, s). length s)")
  fix bol :: bool and c :: char and cs :: string
  have "length (dropWhile (\<lambda>x. x \<noteq> CHR 0x0A) (drop 3 (c # cs))) \<le> length (drop 3 (c # cs))"
    by (rule length_dropWhile_le)
  then show "((False, dropWhile (\<lambda>x. x \<noteq> CHR 0x0A) (drop 3 (c # cs))), bol, c # cs)
      \<in> measure (\<lambda>(bol, s). length s)"
    by simp
qed simp_all

text \<open>
  \<^verbatim>\<open>anchor = re.sub(r'[^\w\s-]', '', header).strip().lower().replace(' ', '-')\<close>
\<close>

definition anchor :: "string \<Rightarrow> string" where
  "anchor header =
     map (\<lambda>c. if c = CHR '' '' then CHR ''-'' else c)
       (lower (strip (filter (\<lambda>c. is_word_char c \<or> isspace c \<or> c = CHR ''-'') header)))"

definition toc_line :: "string \<Rightarrow> string" where
  "toc_line header = ''- ['' @ header @ ''](#'' @ anchor header @ '')''"

text \<open>
  \<^verbatim>\<open>
  def generate_toc_from_markdown(markdown_content, has_useful_links=False):
      headers = re.findall(header_pattern, markdown_content, re.MULTILINE)
      if has_useful_links:
          headers = ["Useful Links"] + headers
      if not headers:
          return ""
      toc_lines = ["## Table of Contents\n"]
      for header in headers:
          anchor = ...
          toc_lines.append(f"- [{header}](#{anchor})")
      return "\n".join(toc_lines) + "\n"
  \<close>
\<close>

definition generate_toc_from_markdown :: "string \<Rightarrow> bool \<Rightarrow> string" where
  "generate_toc_from_markdown markdown_content has_useful_links =
     (let headers = findall_h2 True markdown_content;
          headers = (if has_useful_links then [''Useful Links''] @ headers else headers)
      in if headers = [] then []
         else join nl ([''## Table of Contents'' @ nl] @ map toc_line headers) @ nl)"

text \<open>
  The notion the properties compare with, in the words of the specification: the
  second-level headings of a body are its lines that begin with \<^verbatim>\<open>## \<close> and carry a
  heading text behind it, in the order of the body.
\<close>

definition second_level_headings :: "string \<Rightarrow> string list" where
  "second_level_headings body =
     map (drop 3) (filter (\<lambda>l. prefix ''## '' l \<and> 3 < length l) (split_on (CHR 0x0A) body))"

subsection \<open>JSON values and the Python operations on them\<close>

text \<open>
  What \<^verbatim>\<open>json.load\<close> returns. An object keeps its keys in order, as a Python \<^verbatim>\<open>dict\<close>
  does; the first pair with a key is the one that counts. \<^verbatim>\<open>None\<close> is \<open>JNull\<close>. Numbers are
  integers here: no property below reads a float.
\<close>

datatype json =
    JNull
  | JBool bool
  | JNum int
  | JStr string
  | JArr "json list"
  | JObj "(string \<times> json) list"

text \<open>
  The exceptions the script can raise. \<^verbatim>\<open>sys.exit(n)\<close> raises \<open>SystemExit n\<close>. \<open>Unmodelled\<close>
  is raised by the model alone, on an input outside of what it covers.
\<close>

datatype error =
    KeyError string
  | TypeError
  | AttributeError
  | ValueError
  | SystemExit nat
  | Unmodelled

definition bindE :: "error + 'a \<Rightarrow> ('a \<Rightarrow> error + 'b) \<Rightarrow> error + 'b" where
  "bindE m f = (case m of Inl e \<Rightarrow> Inl e | Inr x \<Rightarrow> f x)"

text \<open>Truth value testing: \<^verbatim>\<open>if x:\<close>.\<close>

fun truthy :: "json \<Rightarrow> bool" where
  "truthy JNull = False"
| "truthy (JBool b) = b"
| "truthy (JNum n) = (n \<noteq> 0)"
| "truthy (JStr s) = (s \<noteq> [])"
| "truthy (JArr xs) = (xs \<noteq> [])"
| "truthy (JObj kvs) = (kvs \<noteq> [])"

text \<open>\<^verbatim>\<open>x.get(k, d)\<close>: only a \<^verbatim>\<open>dict\<close> has the method.\<close>

fun py_get :: "json \<Rightarrow> string \<Rightarrow> json \<Rightarrow> error + json" where
  "py_get (JObj kvs) k d = Inr (case map_of kvs k of None \<Rightarrow> d | Some v \<Rightarrow> v)"
| "py_get _ k d = Inl AttributeError"

text \<open>\<^verbatim>\<open>x[k]\<close> and \<^verbatim>\<open>x[k] = v\<close> for a string \<open>k\<close>.\<close>

fun py_getitem :: "json \<Rightarrow> string \<Rightarrow> error + json" where
  "py_getitem (JObj kvs) k = (case map_of kvs k of None \<Rightarrow> Inl (KeyError k) | Some v \<Rightarrow> Inr v)"
| "py_getitem _ k = Inl TypeError"

fun py_setitem :: "json \<Rightarrow> string \<Rightarrow> json \<Rightarrow> error + json" where
  "py_setitem (JObj kvs) k v = Inr (JObj (AList.update k v kvs))"
| "py_setitem _ k v = Inl TypeError"

text \<open>\<^verbatim>\<open>k in x\<close> for a string \<open>k\<close>: a key of a dict, an element of a list, a substring.\<close>

fun py_in :: "string \<Rightarrow> json \<Rightarrow> error + bool" where
  "py_in k (JObj kvs) = Inr (k \<in> fst ` set kvs)"
| "py_in k (JArr xs) = Inr (JStr k \<in> set xs)"
| "py_in k (JStr s) = Inr (sublist k s)"
| "py_in k _ = Inl TypeError"

text \<open>\<^verbatim>\<open>for x in v\<close>: a list gives its elements, a dict its keys, a string its characters.\<close>

fun py_iter :: "json \<Rightarrow> error + json list" where
  "py_iter (JArr xs) = Inr xs"
| "py_iter (JObj kvs) = Inr (map (\<lambda>kv. JStr (fst kv)) kvs)"
| "py_iter (JStr s) = Inr (map (\<lambda>c. JStr [c]) s)"
| "py_iter _ = Inl TypeError"

text \<open>\<^verbatim>\<open>xs.insert(pos, x)\<close>: only a list has the method; a position behind the end appends.\<close>

definition insert_at :: "nat \<Rightarrow> 'a \<Rightarrow> 'a list \<Rightarrow> 'a list" where
  "insert_at pos x xs = take pos xs @ [x] @ drop pos xs"

fun py_insert :: "json \<Rightarrow> nat \<Rightarrow> json \<Rightarrow> error + json" where
  "py_insert (JArr xs) pos x = Inr (JArr (insert_at pos x xs))"
| "py_insert _ pos x = Inl AttributeError"

text \<open>\<^verbatim>\<open>''.join(v)\<close>: the elements must be strings.\<close>

fun is_str :: "json \<Rightarrow> bool" where
  "is_str (JStr s) = True"
| "is_str _ = False"

fun str_of :: "json \<Rightarrow> string" where
  "str_of (JStr s) = s"
| "str_of _ = []"

fun py_join_empty :: "json \<Rightarrow> error + string" where
  "py_join_empty (JStr s) = Inr s"
| "py_join_empty (JArr xs) =
     (if list_all is_str xs then Inr (concat (map str_of xs)) else Inl TypeError)"
| "py_join_empty (JObj kvs) = Inr (concat (map fst kvs))"
| "py_join_empty _ = Inl TypeError"

subsection \<open>Paths and the file system\<close>

text \<open>
  A \<^verbatim>\<open>pathlib.Path\<close> on POSIX: whether it is absolute, and its parts. Parsing drops empty
  parts and \<^verbatim>\<open>.\<close> parts (two leading slashes are read as one).
\<close>

datatype path = Path bool "string list"

definition parse_path :: "string \<Rightarrow> path" where
  "parse_path s =
     Path (prefix ''/'' s) (filter (\<lambda>p. p \<noteq> [] \<and> p \<noteq> ''.'') (split_on (CHR ''/'') s))"

fun str_path :: "path \<Rightarrow> string" where
  "str_path (Path absolute parts) =
     (if absolute then ''/'' @ join ''/'' parts
      else if parts = [] then ''.'' else join ''/'' parts)"

text \<open>\<^verbatim>\<open>base / s\<close>: an absolute right operand replaces the left one.\<close>

fun joinpath :: "path \<Rightarrow> string \<Rightarrow> path" where
  "joinpath (Path absolute parts) s =
     (case parse_path s of
        Path True parts' \<Rightarrow> Path True parts'
      | Path False parts' \<Rightarrow> Path absolute (parts @ parts'))"

fun path_name :: "path \<Rightarrow> string" where
  "path_name (Path absolute parts) = (if parts = [] then [] else last parts)"

fun path_parent :: "path \<Rightarrow> path" where
  "path_parent (Path absolute parts) = Path absolute (butlast parts)"

text \<open>
  \<^verbatim>\<open>p.relative_to(other)\<close> compares the parts, the root counting as the first part of
  an absolute path, and raises \<^verbatim>\<open>ValueError\<close> unless \<open>other\<close> is a prefix.
\<close>

fun abs_parts :: "path \<Rightarrow> string list" where
  "abs_parts (Path absolute parts) = (if absolute then ''/'' # parts else parts)"

definition relative_to :: "path \<Rightarrow> path \<Rightarrow> error + path" where
  "relative_to p other =
     (let n = length (abs_parts other)
      in if (if n = 0 then (case p of Path absolute _ \<Rightarrow> absolute)
             else take n (abs_parts p) \<noteq> abs_parts other)
         then Inl ValueError
         else Inr (Path False (drop n (abs_parts p))))"

text \<open>
  What the script asks of its surroundings: whether a path exists, what \<^verbatim>\<open>glob\<close>
  matches, how \<^verbatim>\<open>str()\<close> prints a value that is not a string, what
  \<^verbatim>\<open>yaml.safe_load\<close> makes of a text (\<open>None\<close> when it raises), what
  \<^verbatim>\<open>create_slide_thumbnail\<close> returns for a slide file (the name of the thumbnail, or
  \<open>None\<close> behind its warning when both external tools fail), whether the \<^verbatim>\<open>markdown\<close>
  package is installed, and the files of a folder that match \<^verbatim>\<open>*.ipynb\<close>
  and \<^verbatim>\<open>*.md\<close>, by name, with their contents (\<open>None\<close> for a notebook that is not
  valid JSON). The files the script reads lie outside of the output directory, so that
  its own writes do not change these answers, and copying and archiving an existing file
  succeeds.
\<close>

record env =
  exists :: "path \<Rightarrow> bool"
  glob :: "string \<Rightarrow> string list"
  py_str :: "json \<Rightarrow> string"
  yaml_safe_load :: "string \<Rightarrow> json option"
  thumbnail :: "path \<Rightarrow> string option"
  markdown_pkg :: bool
  notebooks_in :: "string \<Rightarrow> (string \<times> json option) list"
  markdowns_in :: "string \<Rightarrow> (string \<times> string) list"

definition fmt :: "'a env_scheme \<Rightarrow> json \<Rightarrow> string" where
  "fmt e v = (case v of JStr s \<Rightarrow> s | _ \<Rightarrow> py_str e v)"

subsection \<open>The asset bundler\<close>

text \<open>
  What is printed, as far as the properties speak of it.
\<close>

datatype event =
    NoFilesMatch string string
  | CreatedZip string nat
  | SkippingNotebook string
  | SkippingMarkdown string
  | NoSections
  | SectionFolderNotFound string
  | SlideNotFound string

text \<open>
  The archive under construction: the calls \<^verbatim>\<open>zipf.write(file_path, str(arcname))\<close> made so
  far, in order, the set \<^verbatim>\<open>added_files\<close>, and what was printed.
\<close>

record zip_state =
  written :: "(string \<times> string) list"
  added_files :: "string set"
  printed :: "event list"

text \<open>
  \<^verbatim>\<open>
  try:
      arcname = file_path.relative_to(base_dir)
  except ValueError:
      # If file is outside notebook dir, use full relative path
      arcname = file_path
  \<close>
\<close>

definition arcname_of :: "path \<Rightarrow> path \<Rightarrow> path" where
  "arcname_of base_dir file_path =
     (case relative_to file_path base_dir of Inr p \<Rightarrow> p | Inl e \<Rightarrow> file_path)"

text \<open>
  The body of the inner loop, for one match of \<^verbatim>\<open>glob\<close>:
  \<^verbatim>\<open>
  file_path = Path(file_path)
  ...
  if str(file_path) not in added_files:
      zipf.write(file_path, str(arcname))
      added_files.add(str(file_path))
  \<close>
\<close>

definition add_match :: "path \<Rightarrow> zip_state \<Rightarrow> string \<Rightarrow> zip_state" where
  "add_match base_dir st m =
     (let file_path = parse_path m;
          arcname = arcname_of base_dir file_path
      in if str_path file_path \<notin> added_files st
         then st\<lparr>written := written st @ [(str_path file_path, str_path arcname)],
                 added_files := insert (str_path file_path) (added_files st)\<rparr>
         else st)"

text \<open>
  The body of the outer loop, for one pattern:
  \<^verbatim>\<open>
  full_pattern = str(base_dir / pattern)
  matches = glob(full_pattern, recursive=True)
  if not matches:
      print(f"  Warning: No files match pattern '{pattern}' in {base_dir}")
  for file_path in matches: ...
  \<close>
\<close>

definition add_pattern :: "'a env_scheme \<Rightarrow> path \<Rightarrow> zip_state \<Rightarrow> string \<Rightarrow> zip_state" where
  "add_pattern e base_dir st pattern =
     (let full_pattern = str_path (joinpath base_dir pattern);
          matches = glob e full_pattern;
          st = (if matches = []
                then st\<lparr>printed := printed st @ [NoFilesMatch pattern (str_path base_dir)]\<rparr>
                else st)
      in foldl (add_match base_dir) st matches)"

text \<open>
  \<^verbatim>\<open>create_data_zip(data_patterns, zip_path, base_dir)\<close>; \<open>zip_name\<close> is \<^verbatim>\<open>zip_path.name\<close>.
\<close>

definition create_data_zip :: "'a env_scheme \<Rightarrow> string list \<Rightarrow> string \<Rightarrow> path \<Rightarrow> zip_state" where
  "create_data_zip e data_patterns zip_name base_dir =
     (let st = foldl (add_pattern e base_dir)
                 \<lparr>written = [], added_files = {}, printed = []\<rparr> data_patterns
      in st\<lparr>printed := printed st @ [CreatedZip zip_name (card (added_files st))]\<rparr>)"

subsection \<open>The configuration\<close>

text \<open>
  \<^verbatim>\<open>workshop-config.yaml\<close> as \<^verbatim>\<open>load_config\<close> returns it. An entry of the section list is
  a mapping with the optional keys \<^verbatim>\<open>folder\<close>, \<^verbatim>\<open>title\<close> and \<^verbatim>\<open>slides\<close>, or a plain string
  (\<^verbatim>\<open>main\<close> accepts both). A key that is absent is \<open>None\<close>; the values are strings.
\<close>

datatype section_cfg =
    SectionDict "string option" "string option" "string option"
  | SectionStr string

record config =
  github_repo :: "string option"
  github_branch :: "string option"
  output_dir :: "string option"
  sections :: "section_cfg list"

subsection \<open>The setup cell\<close>

definition check_mark :: string where
  "check_mark = [CHR 0xE2, CHR 0x9C, CHR 0x93]"

text \<open>
  \<^verbatim>\<open>
  for package in packages:
      if package.strip():  # Only if package name is not empty
          source_lines.append(f"!pip install --upgrade --quiet {package.strip()}\n")
  \<close>
\<close>

fun pip_lines :: "json list \<Rightarrow> error + string list" where
  "pip_lines [] = Inr []"
| "pip_lines (JStr package # packages) =
     bindE (pip_lines packages) (\<lambda>ls.
       Inr ((if strip package \<noteq> []
             then [''!pip install --upgrade --quiet '' @ strip package @ nl] else []) @ ls))"
| "pip_lines (_ # packages) = Inl AttributeError"

text \<open>
  \<^verbatim>\<open>
  for link in links:
      name = link.get('name', 'Link')
      url = link.get('url', '#')
      desc = link.get('description', '')
      if desc:
          source_lines.append(f"# - {name}: {url} ({desc})\n")
      else:
          source_lines.append(f"# - {name}: {url}\n")
  \<close>
\<close>

definition link_line :: "'a env_scheme \<Rightarrow> json \<Rightarrow> error + string" where
  "link_line e link =
     bindE (py_get link ''name'' (JStr ''Link'')) (\<lambda>name.
     bindE (py_get link ''url'' (JStr ''#'')) (\<lambda>url.
     bindE (py_get link ''description'' (JStr [])) (\<lambda>desc.
       Inr (if truthy desc
            then ''# - '' @ fmt e name @ '': '' @ fmt e url @ '' ('' @ fmt e desc @ '')'' @ nl
            else ''# - '' @ fmt e name @ '': '' @ fmt e url @ nl))))"

fun link_lines :: "'a env_scheme \<Rightarrow> json list \<Rightarrow> error + string list" where
  "link_lines e [] = Inr []"
| "link_lines e (link # links) =
     bindE (link_line e link) (\<lambda>l. bindE (link_lines e links) (\<lambda>ls. Inr (l # ls)))"

text \<open>
  \<^verbatim>\<open>create_setup_cell(zip_name, config, install_packages, links)\<close>. The second and third
  line of the source are one list element: the source has no comma between the two
  literals.
\<close>

definition create_setup_cell :: "'a env_scheme \<Rightarrow> string \<Rightarrow> config \<Rightarrow> json \<Rightarrow> json \<Rightarrow> error + json" where
  "create_setup_cell e zip_name config install_packages links =
     (case github_repo config of
        None \<Rightarrow> Inl (KeyError ''github_repo'')
      | Some repo \<Rightarrow>
     (let branch = (case github_branch config of None \<Rightarrow> ''main'' | Some b \<Rightarrow> b);
          out_dir = (case output_dir config of None \<Rightarrow> ''docs'' | Some d \<Rightarrow> d);
          source_lines =
            [''# First we need to download some things!'' @ nl,
             ''# Run this cell to get the necessary data and software'' @ nl @ ''import os'' @ nl,
             ''import urllib.request'' @ nl,
             ''import zipfile'' @ nl,
             nl]
      in
     bindE (if truthy install_packages
            then bindE (pip_lines (case install_packages of
                                     JStr s \<Rightarrow> map JStr (split_py s)
                                   | JArr packages \<Rightarrow> packages
                                   | _ \<Rightarrow> []))
                   (\<lambda>ls. Inr ([''# Install required packages'' @ nl] @ ls @ [nl]))
            else Inr []) (\<lambda>install_lines.
     (let source_lines = source_lines @ install_lines @
            [''# Download and extract data files'' @ nl,
             ''url = '' @ quote @ ''https://github.com/'' @ repo @ ''/raw/'' @ branch
                @ ''/'' @ out_dir @ ''/'' @ zip_name @ quote @ nl,
             ''print(f'' @ quote @ ''Downloading data from {url}...'' @ quote @ '')'' @ nl,
             ''urllib.request.urlretrieve(url, '' @ quote @ zip_name @ quote @ '')'' @ nl,
             nl,
             ''print('' @ quote @ ''Extracting '' @ zip_name @ ''...'' @ quote @ '')'' @ nl,
             ''with zipfile.ZipFile('' @ quote @ zip_name @ quote @ '', '' @ quote @ ''r'' @ quote
                @ '') as zip_ref:'' @ nl,
             ''    zip_ref.extractall('' @ quote @ ''.'' @ quote @ '')'' @ nl,
             nl,
             ''os.remove('' @ quote @ zip_name @ quote @ '')'' @ nl,
             ''print('' @ quote @ check_mark @ '' Data files extracted!'' @ quote @ '')'']
      in
     bindE (if truthy links
            then bindE (py_iter links) (\<lambda>ls. bindE (link_lines e ls) (\<lambda>lls.
                   Inr ([nl, ''# Useful links:'' @ nl] @ lls)))
            else Inr []) (\<lambda>links_section.
       Inr (JObj
         [(''cell_type'', JStr ''code''),
          (''metadata'', JObj []),
          (''source'', JArr (map JStr (source_lines @ links_section))),
          (''execution_count'', JNull),
          (''outputs'', JArr [])]))))))"

subsection \<open>The notebook processor\<close>

text \<open>
  \<^verbatim>\<open>
  def get_notebook_metadata(notebook):
      return notebook.get('metadata', {}).get('workshop', {})
  \<close>
\<close>

definition get_notebook_metadata :: "json \<Rightarrow> error + json" where
  "get_notebook_metadata notebook =
     bindE (py_get notebook ''metadata'' (JObj [])) (\<lambda>m. py_get m ''workshop'' (JObj []))"

text \<open>
  \<^verbatim>\<open>metadata['slides'] = section_slides\<close>: \<open>metadata\<close> is the object in
  \<^verbatim>\<open>notebook['metadata']['workshop']\<close>, so the assignment changes the notebook.
\<close>

definition set_workshop_slides :: "json \<Rightarrow> string \<Rightarrow> error + json" where
  "set_workshop_slides notebook section_slides =
     bindE (py_getitem notebook ''metadata'') (\<lambda>m.
     bindE (py_getitem m ''workshop'') (\<lambda>w.
     bindE (py_setitem w ''slides'' (JStr section_slides)) (\<lambda>w'.
     bindE (py_setitem m ''workshop'' w') (\<lambda>m'.
       py_setitem notebook ''metadata'' m'))))"

text \<open>
  \<^verbatim>\<open>
  if 'metadata' not in complete_nb:
      complete_nb['metadata'] = {}
  if 'kernelspec' not in complete_nb['metadata']:
      complete_nb['metadata']['kernelspec'] = {}
  complete_nb['metadata']['kernelspec']['name'] = 'python3'
  complete_nb['metadata']['kernelspec']['display_name'] = 'Python 3'
  complete_nb['metadata']['kernelspec']['language'] = 'python'
  \<close>
  The assignments change the objects in place; the model puts the changed objects back.
\<close>

definition set_kernelspec :: "json \<Rightarrow> error + json" where
  "set_kernelspec complete_nb =
     bindE (py_in ''metadata'' complete_nb) (\<lambda>has_metadata.
     bindE (if \<not> has_metadata then py_setitem complete_nb ''metadata'' (JObj [])
            else Inr complete_nb) (\<lambda>complete_nb.
     bindE (py_getitem complete_nb ''metadata'') (\<lambda>m.
     bindE (py_in ''kernelspec'' m) (\<lambda>has_kernelspec.
     bindE (if \<not> has_kernelspec then py_setitem m ''kernelspec'' (JObj []) else Inr m) (\<lambda>m.
     bindE (py_getitem m ''kernelspec'') (\<lambda>ks.
     bindE (py_setitem ks ''name'' (JStr ''python3'')) (\<lambda>ks.
     bindE (py_setitem ks ''display_name'' (JStr ''Python 3'')) (\<lambda>ks.
     bindE (py_setitem ks ''language'' (JStr ''python'')) (\<lambda>ks.
     bindE (py_setitem m ''kernelspec'' ks) (\<lambda>m.
       py_setitem complete_nb ''metadata'' m))))))))))"

text \<open>
  \<^verbatim>\<open>
  for i, cell in enumerate(exercise_nb['cells']):
      if cell.get('metadata', {}).get('tags') and 'solution' in cell['metadata']['tags']:
          # Replace with empty cell
          exercise_nb['cells'][i] = {
              "cell_type": "code", "metadata": {}, "source": [],
              "execution_count": None, "outputs": []
          }
  \<close>
\<close>

definition is_solution_cell :: "json \<Rightarrow> error + bool" where
  "is_solution_cell cell =
     bindE (py_get cell ''metadata'' (JObj [])) (\<lambda>m.
     bindE (py_get m ''tags'' JNull) (\<lambda>tags.
       if truthy tags
       then bindE (py_getitem cell ''metadata'') (\<lambda>m'.
            bindE (py_getitem m' ''tags'') (\<lambda>tags'. py_in ''solution'' tags'))
       else Inr False))"

definition empty_cell :: json where
  "empty_cell =
     JObj [(''cell_type'', JStr ''code''),
           (''metadata'', JObj []),
           (''source'', JArr []),
           (''execution_count'', JNull),
           (''outputs'', JArr [])]"

fun replace_solution_cells :: "json list \<Rightarrow> error + json list" where
  "replace_solution_cells [] = Inr []"
| "replace_solution_cells (cell # cells) =
     bindE (is_solution_cell cell) (\<lambda>solution.
     bindE (replace_solution_cells cells) (\<lambda>cells'.
       Inr ((if solution then empty_cell else cell) # cells')))"

text \<open>
  \<^verbatim>\<open>
  insert_pos = 0
  for i, cell in enumerate(complete_nb['cells']):
      if cell['cell_type'] == 'markdown':
          insert_pos = i + 1
          break
  \<close>
\<close>

fun find_insert_pos :: "nat \<Rightarrow> json list \<Rightarrow> error + nat" where
  "find_insert_pos i [] = Inr 0"
| "find_insert_pos i (cell # cells) =
     bindE (py_getitem cell ''cell_type'') (\<lambda>t.
       if t = JStr ''markdown'' then Inr (i + 1) else find_insert_pos (i + 1) cells)"

text \<open>
  The patterns of \<^verbatim>\<open>create_data_zip\<close> as strings: \<^verbatim>\<open>base_dir / pattern\<close> raises
  \<^verbatim>\<open>TypeError\<close> on a pattern that is not a string.
\<close>

fun data_patterns_of :: "json list \<Rightarrow> error + string list" where
  "data_patterns_of [] = Inr []"
| "data_patterns_of (JStr pattern # ps) = bindE (data_patterns_of ps) (\<lambda>ps'. Inr (pattern # ps'))"
| "data_patterns_of (_ # ps) = Inl TypeError"

text \<open>
  \<^verbatim>\<open>find_and_copy_referenced_files(notebook, notebook_dir, output_dir)\<close>. The search for
  file references and the copies act on the output directory alone; the model keeps the
  walk over the cells, which can raise:
  \<^verbatim>\<open>
  for cell in notebook.get('cells', []):
      if cell['cell_type'] == 'markdown':
          content = ''.join(cell.get('source', []))
  \<close>
\<close>

fun scan_markdown_cells :: "json list \<Rightarrow> error + unit" where
  "scan_markdown_cells [] = Inr ()"
| "scan_markdown_cells (cell # cells) =
     bindE (py_getitem cell ''cell_type'') (\<lambda>t.
     bindE (if t = JStr ''markdown''
            then bindE (py_get cell ''source'' (JArr [])) (\<lambda>src.
                 bindE (py_join_empty src) (\<lambda>content. Inr ()))
            else Inr ()) (\<lambda>u. scan_markdown_cells cells))"

definition find_and_copy_referenced_files :: "json \<Rightarrow> error + unit" where
  "find_and_copy_referenced_files notebook =
     bindE (py_get notebook ''cells'' (JArr [])) (\<lambda>cells.
     bindE (py_iter cells) scan_markdown_cells)"

text \<open>
  The branch \<^verbatim>\<open>if metadata.get('data_files'):\<close> of \<^verbatim>\<open>process_notebook\<close>: the setup cell
  goes into both notebooks at the same position, behind the first markdown cell of
  the complete notebook, and the archive is written.
\<close>

definition add_setup_cell ::
  "'a env_scheme \<Rightarrow> string \<Rightarrow> path \<Rightarrow> config \<Rightarrow> json \<Rightarrow> json \<Rightarrow> json
     \<Rightarrow> error + (json \<times> json \<times> zip_state option)" where
  "add_setup_cell e base_name notebook_dir config metadata complete_nb exercise_nb =
     (let zip_name = base_name @ ''-data.zip'' in
     bindE (py_get metadata ''install'' (JStr ''pandas natural_pdf tqdm'')) (\<lambda>install_packages.
     bindE (py_get metadata ''links'' JNull) (\<lambda>links.
     bindE (create_setup_cell e zip_name config install_packages links) (\<lambda>setup_cell.
     bindE (py_getitem complete_nb ''cells'') (\<lambda>cells.
     bindE (py_iter cells) (\<lambda>elems.
     bindE (find_insert_pos 0 elems) (\<lambda>insert_pos.
     bindE (py_insert cells insert_pos setup_cell) (\<lambda>cells'.
     bindE (py_setitem complete_nb ''cells'' cells') (\<lambda>complete_nb'.
     bindE (py_getitem exercise_nb ''cells'') (\<lambda>xcells.
     bindE (py_insert xcells insert_pos setup_cell) (\<lambda>xcells'.
     bindE (py_setitem exercise_nb ''cells'' xcells') (\<lambda>exercise_nb'.
     bindE (py_getitem metadata ''data_files'') (\<lambda>data_files.
     bindE (py_iter data_files) (\<lambda>ps.
     bindE (data_patterns_of ps) (\<lambda>data_patterns.
       Inr (complete_nb', exercise_nb',
            Some (create_data_zip e data_patterns zip_name notebook_dir)))))))))))))))))"

text \<open>
  The branch \<^verbatim>\<open>if slide_file:\<close>: the link cell goes to the top of both notebooks, and
  the slide file must exist below the notebook's directory or as a path of its own:
  \<^verbatim>\<open>
  source_pdf = notebook_dir / slide_file
  if not source_pdf.exists():
      source_pdf = Path(slide_file)
  if source_pdf.exists(): ... copy ...
  else:
      print(f"\n ERROR: Slide file not found: {slide_file}") ...
      sys.exit(1)
  \<close>
\<close>

definition slide_link_cell :: "'a env_scheme \<Rightarrow> json \<Rightarrow> json" where
  "slide_link_cell e slide_file =
     JObj [(''cell_type'', JStr ''markdown''),
           (''metadata'', JObj []),
           (''source'', JArr [JStr (''**Slides:** ['' @ fmt e slide_file @ ''](./''
                                     @ fmt e slide_file @ '')'')])]"

definition slide_found :: "'a env_scheme \<Rightarrow> path \<Rightarrow> string \<Rightarrow> bool" where
  "slide_found e dir slide_file \<longleftrightarrow>
     exists e (joinpath dir slide_file) \<or> exists e (parse_path slide_file)"

definition add_slide_link ::
  "'a env_scheme \<Rightarrow> path \<Rightarrow> json \<Rightarrow> json \<Rightarrow> json \<Rightarrow> error + (json \<times> json)" where
  "add_slide_link e notebook_dir slide_file complete_nb exercise_nb =
     bindE (py_getitem complete_nb ''cells'') (\<lambda>cells.
     bindE (py_insert cells 0 (slide_link_cell e slide_file)) (\<lambda>cells'.
     bindE (py_setitem complete_nb ''cells'' cells') (\<lambda>complete_nb'.
     bindE (py_getitem exercise_nb ''cells'') (\<lambda>xcells.
     bindE (py_insert xcells 0 (slide_link_cell e slide_file)) (\<lambda>xcells'.
     bindE (py_setitem exercise_nb ''cells'' xcells') (\<lambda>exercise_nb'.
       case slide_file of
         JStr s \<Rightarrow> if slide_found e notebook_dir s then Inr (complete_nb', exercise_nb')
                   else Inl (SystemExit 1)
       | _ \<Rightarrow> Inl TypeError))))))"

text \<open>
  What \<^verbatim>\<open>process_notebook\<close> writes and returns: the exercise notebook (written to
  \<^verbatim>\<open>{base_name}.ipynb\<close>), the complete one (\<^verbatim>\<open>{base_name}-ANSWERS.ipynb\<close>), the archive if
  one was made, and the dictionary for the index.
\<close>

record nb_result =
  exercise_nb :: json
  complete_nb :: json
  data_zip :: "zip_state option"
  info :: json

text \<open>
  \<^verbatim>\<open>process_notebook(notebook_path, output_dir, config, section_slides)\<close>, where \<open>notebook\<close>
  is the content of the file, \<open>base_name\<close> is \<^verbatim>\<open>notebook_path.stem\<close> and \<open>notebook_dir\<close> is
  \<^verbatim>\<open>notebook_path.parent\<close>. The result \<open>Inr None\<close> is the return of \<^verbatim>\<open>None\<close> behind the
  message "Skipping ... - no workshop metadata". \<^verbatim>\<open>complete_nb = notebook.copy()\<close> is a
  shallow copy: the complete notebook shares its metadata and its cell list with
  \<open>notebook\<close>. \<^verbatim>\<open>json.loads(json.dumps(complete_nb))\<close> is a deep copy, the same value.
\<close>

definition process_notebook ::
  "'a env_scheme \<Rightarrow> json \<Rightarrow> string \<Rightarrow> path \<Rightarrow> config \<Rightarrow> string option
     \<Rightarrow> error + nb_result option" where
  "process_notebook e notebook base_name notebook_dir config section_slides =
     bindE (get_notebook_metadata notebook) (\<lambda>metadata.
     if \<not> truthy metadata then Inr None else
     bindE (py_get metadata ''slides'' JNull) (\<lambda>slides.
     bindE (case section_slides of
              Some s \<Rightarrow> if \<not> truthy slides \<and> s \<noteq> [] then set_workshop_slides notebook s
                        else Inr notebook
            | None \<Rightarrow> Inr notebook) (\<lambda>notebook.
     bindE (get_notebook_metadata notebook) (\<lambda>metadata.
     bindE (set_kernelspec notebook) (\<lambda>complete_nb.
     bindE (py_getitem complete_nb ''cells'') (\<lambda>cells.
     bindE (py_iter cells) (\<lambda>elems.
     bindE (replace_solution_cells elems) (\<lambda>replaced.
     bindE (case cells of JArr _ \<Rightarrow> py_setitem complete_nb ''cells'' (JArr replaced)
                        | _ \<Rightarrow> Inr complete_nb) (\<lambda>exercise_nb.
     bindE (py_get metadata ''data_files'' JNull) (\<lambda>data_files.
     bindE (if truthy data_files
            then add_setup_cell e base_name notebook_dir config metadata complete_nb exercise_nb
            else Inr (complete_nb, exercise_nb, None)) (\<lambda>(complete_nb, exercise_nb, zip).
     bindE (find_and_copy_referenced_files complete_nb) (\<lambda>u.
     bindE (py_get metadata ''slides'' JNull) (\<lambda>slide_file.
     bindE (if truthy slide_file
            then add_slide_link e notebook_dir slide_file complete_nb exercise_nb
            else Inr (complete_nb, exercise_nb)) (\<lambda>(complete_nb, exercise_nb).
     bindE (py_get metadata ''title'' (JStr base_name)) (\<lambda>title.
     bindE (py_get metadata ''description'' (JStr [])) (\<lambda>description.
     bindE (py_get metadata ''order'' JNull) (\<lambda>order.
     bindE (py_get metadata ''links'' JNull) (\<lambda>links.
       Inr (Some \<lparr>exercise_nb = exercise_nb, complete_nb = complete_nb, data_zip = zip,
              info = JObj
                [(''name'', JStr base_name),
                 (''title'', title),
                 (''description'', description),
                 (''exercise_file'', JStr (base_name @ ''.ipynb'')),
                 (''answers_file'', JStr (base_name @ ''-ANSWERS.ipynb'')),
                 (''data_file'', if truthy data_files then JStr (base_name @ ''-data.zip'')
                                 else JNull),
                 (''section'', JStr (path_name notebook_dir)),
                 (''order'', order),
                 (''links'', links),
                 (''slides'', slide_file)]\<rparr>)))))))))))))))))))"

subsection \<open>Notions used to state the properties of the notebook processor\<close>

text \<open>
  The cell list of a notebook (empty when \<^verbatim>\<open>cells\<close> is missing or not a list), the test
  of the loop over the exercise notebook as a predicate, and the replacement the loop
  makes.
\<close>

definition nb_cells :: "json \<Rightarrow> json list" where
  "nb_cells nb = (case py_getitem nb ''cells'' of Inr (JArr cs) \<Rightarrow> cs | _ \<Rightarrow> [])"

definition solution_tagged :: "json \<Rightarrow> bool" where
  "solution_tagged cell \<longleftrightarrow> is_solution_cell cell = Inr True"

definition blank :: "json \<Rightarrow> json" where
  "blank cell = (if solution_tagged cell then empty_cell else cell)"

text \<open>
  A notebook with every solution-tagged cell of its cell list replaced by the empty
  cell, and nothing else changed.
\<close>

definition exercise_of :: "json \<Rightarrow> json" where
  "exercise_of nb =
     (case nb of
        JObj kvs \<Rightarrow>
          (case map_of kvs ''cells'' of
             Some (JArr cs) \<Rightarrow> JObj (AList.update ''cells'' (JArr (map blank cs)) kvs)
           | _ \<Rightarrow> nb)
      | _ \<Rightarrow> nb)"

text \<open>\<^verbatim>\<open>x[k1][k2]...\<close>\<close>

fun lookup_path :: "json \<Rightarrow> string list \<Rightarrow> error + json" where
  "lookup_path j [] = Inr j"
| "lookup_path j (k # ks) = bindE (py_getitem j k) (\<lambda>v. lookup_path v ks)"

definition has_python3_kernelspec :: "json \<Rightarrow> bool" where
  "has_python3_kernelspec nb \<longleftrightarrow>
     lookup_path nb [''metadata'', ''kernelspec'', ''name''] = Inr (JStr ''python3'') \<and>
     lookup_path nb [''metadata'', ''kernelspec'', ''display_name''] = Inr (JStr ''Python 3'') \<and>
     lookup_path nb [''metadata'', ''kernelspec'', ''language''] = Inr (JStr ''python'')"

subsection \<open>A small workshop, for the examples\<close>

text \<open>
  One section folder \<^verbatim>\<open>intro\<close> with its slides and two data files; a configuration; and
  a notebook of three cells, two of them tagged as solutions, written for an R kernel.
\<close>

definition example_env :: env where
  "example_env =
     \<lparr>exists = (\<lambda>p. p = Path False [''intro''] \<or> p = Path False [''intro'', ''slides.pdf'']),
      glob = (\<lambda>s. if s = ''intro/data/*.pdf'' then [''intro/data/a.pdf'', ''intro/data/b.pdf'']
                   else if s = ''intro/data/a.*'' then [''intro/data/a.pdf'']
                   else if s = ''/srv/shared/big.csv'' then [''/srv/shared/big.csv'']
                   else []),
      py_str = (\<lambda>v. []),
      yaml_safe_load = (\<lambda>s. None),
      thumbnail = (\<lambda>p. None),
      markdown_pkg = True,
      notebooks_in = (\<lambda>folder. []),
      markdowns_in = (\<lambda>folder. [])\<rparr>"

definition example_config :: config where
  "example_config =
     \<lparr>github_repo = Some ''jsoma/natural-pdf-workshop'',
      github_branch = Some ''main'',
      output_dir = Some ''docs'',
      sections = [SectionDict (Some ''intro'') (Some ''Introduction'') (Some ''intro/slides.pdf'')]\<rparr>"

definition example_intro_cell :: json where
  "example_intro_cell =
     JObj [(''cell_type'', JStr ''markdown''),
           (''metadata'', JObj []),
           (''source'', JArr [JStr ''# Exercise''])]"

definition example_solution_code :: json where
  "example_solution_code =
     JObj [(''cell_type'', JStr ''code''),
           (''metadata'', JObj [(''tags'', JArr [JStr ''solution''])]),
           (''source'', JArr [JStr ''answer = 42'']),
           (''execution_count'', JNum 1),
           (''outputs'', JArr [JObj [(''output_type'', JStr ''stream'')]])]"

definition example_solution_text :: json where
  "example_solution_text =
     JObj [(''cell_type'', JStr ''markdown''),
           (''metadata'', JObj [(''tags'', JArr [JStr ''hint'', JStr ''solution''])]),
           (''source'', JArr [JStr ''The answer is 42.''])]"

definition example_notebook :: json where
  "example_notebook =
     JObj [(''cells'', JArr [example_intro_cell, example_solution_code, example_solution_text]),
           (''metadata'',
            JObj [(''kernelspec'',
                   JObj [(''name'', JStr ''ir''), (''display_name'', JStr ''R''),
                         (''language'', JStr ''R'')]),
                  (''workshop'', JObj [(''title'', JStr ''Intro''), (''order'', JNum 1)])]),
           (''nbformat'', JNum 4)]"

text \<open>What \<^verbatim>\<open>process_notebook\<close> makes of the notebook when the section has slides.\<close>

definition example_metadata :: json where
  "example_metadata =
     JObj [(''kernelspec'',
            JObj [(''name'', JStr ''python3''), (''display_name'', JStr ''Python 3''),
                  (''language'', JStr ''python'')]),
           (''workshop'',
            JObj [(''title'', JStr ''Intro''), (''order'', JNum 1),
                  (''slides'', JStr ''intro/slides.pdf'')])]"

definition example_result :: nb_result where
  "example_result =
     \<lparr>exercise_nb =
        JObj [(''cells'', JArr [slide_link_cell example_env (JStr ''intro/slides.pdf''),
                               example_intro_cell, empty_cell, empty_cell]),
              (''metadata'', example_metadata),
              (''nbformat'', JNum 4)],
      complete_nb =
        JObj [(''cells'', JArr [slide_link_cell example_env (JStr ''intro/slides.pdf''),
                               example_intro_cell, example_solution_code,
                               example_solution_text]),
              (''metadata'', example_metadata),
              (''nbformat'', JNum 4)],
      data_zip = None,
      info =
        JObj [(''name'', JStr ''intro''),
              (''title'', JStr ''Intro''),
              (''description'', JStr []),
              (''exercise_file'', JStr ''intro.ipynb''),
              (''answers_file'', JStr ''intro-ANSWERS.ipynb''),
              (''data_file'', JNull),
              (''section'', JStr ''intro''),
              (''order'', JNum 1),
              (''links'', JNull),
              (''slides'', JStr ''intro/slides.pdf'')]\<rparr>"

subsection \<open>Notions used to state the properties of the table of contents\<close>

text \<open>The entries of a table of contents: its lines that are list items with a link.\<close>

definition toc_entries :: "string \<Rightarrow> string list" where
  "toc_entries toc = filter (prefix ''- ['') (split_on (CHR 0x0A) toc)"

definition h2_of_line :: "string \<Rightarrow> string list" where
  "h2_of_line l = (if prefix ''## '' l \<and> 3 < length l then [drop 3 l] else [])"

text \<open>A part of a parsed path: not empty, not \<^verbatim>\<open>.\<close>, and without a slash.\<close>

definition good_part :: "string \<Rightarrow> bool" where
  "good_part p \<longleftrightarrow> p \<noteq> [] \<and> p \<noteq> ''.'' \<and> CHR ''/'' \<notin> set p"

subsection \<open>Python's \<^verbatim>\<open>sorted\<close>\<close>

text \<open>
  \<^verbatim>\<open>sorted(xs, key=k)\<close> is a stable sort by key, and so is the library's insertion sort
  \<^const>\<open>sort_key\<close>. With \<^verbatim>\<open>reverse=True\<close> Python reverses the list, sorts it stably and
  reverses the result, so that equal keys keep their original order.
\<close>

definition sorted_py :: "('a \<Rightarrow> 'k::linorder) \<Rightarrow> 'a list \<Rightarrow> 'a list" where
  "sorted_py key xs = sort_key key xs"

definition sorted_py_reverse :: "('a \<Rightarrow> 'k::linorder) \<Rightarrow> 'a list \<Rightarrow> 'a list" where
  "sorted_py_reverse key xs = rev (sort_key key (rev xs))"

subsection \<open>Item metadata records and their order within a section\<close>

text \<open>
  The dictionary that \<^verbatim>\<open>process_notebook\<close> and \<^verbatim>\<open>process_markdown\<close> return and that
  \<^verbatim>\<open>main\<close> completes (\<^verbatim>\<open>section\<close>, here \<open>item_section\<close>, and \<^verbatim>\<open>section_folder\<close>), with
  the keys that \<^verbatim>\<open>create_index\<close> decides by. The \<^verbatim>\<open>order\<close> is an integer or \<^verbatim>\<open>None\<close>;
  the section is the configured title, a string; \<open>is_markdown\<close> says that the key
  \<^verbatim>\<open>type\<close> is \<^verbatim>\<open>'markdown'\<close>.
\<close>

record item =
  name :: string
  title :: json
  item_section :: string
  section_folder :: string
  order :: "int option"
  links :: json
  is_markdown :: bool

text \<open>
  \<^verbatim>\<open>
  def sort_key(item):
      if item['order'] is not None:
          return (0, item['order'], '')  # Items with order come first
      else:
          return (1, 0, item['name'])  # Then items without order
  \<close>
  Python compares the tuples lexicographically.
\<close>

definition sort_key_item :: "item \<Rightarrow> nat \<times> int \<times> string" where
  "sort_key_item it =
     (case order it of Some k \<Rightarrow> (0, k, '''') | None \<Rightarrow> (1, 0, name it))"

text \<open>
  \<^verbatim>\<open>
  sorted_items = sorted(section_items, key=sort_key)
  items_with_order = [item for item in sorted_items if item['order'] is not None]
  items_without_order = sorted([item for item in sorted_items if item['order'] is None],
                               key=lambda x: x['name'], reverse=True)
  sorted_items = items_with_order + items_without_order
  \<close>
\<close>

definition sorted_items :: "item list \<Rightarrow> item list" where
  "sorted_items section_items =
     (let sorted_items = sorted_py sort_key_item section_items;
          items_with_order = filter (\<lambda>it. order it \<noteq> None) sorted_items;
          items_without_order =
            sorted_py_reverse name (filter (\<lambda>it. order it = None) sorted_items)
      in items_with_order @ items_without_order)"

subsection \<open>The slide embedder\<close>

text \<open>\<^verbatim>\<open>Path.stem\<close>: the name without its last suffix.\<close>

definition rfind :: "char \<Rightarrow> string \<Rightarrow> nat option" where
  "rfind c s =
     (if c \<in> set s then Some (length s - 1 - length (takeWhile (\<lambda>x. x \<noteq> c) (rev s)))
      else None)"

definition path_stem :: "path \<Rightarrow> string" where
  "path_stem p =
     (let name = path_name p
      in case rfind (CHR ''.'') name of
           Some i \<Rightarrow> if 0 < i \<and> i + 1 < length name then take i name else name
         | None \<Rightarrow> name)"

text \<open>
  The HTML fragment that \<^verbatim>\<open>generate_slide_embed\<close> returns is fixed text around three
  values: the identifier of the embed, the slide file as it was given, and the preview,
  an image of the thumbnail or the placeholder when no thumbnail could be made.
\<close>

datatype preview = Thumbnail string | Placeholder

record slide_embed =
  slide_id :: string
  slide_ref :: string
  slide_preview :: preview

text \<open>
  \<^verbatim>\<open>
  def generate_slide_embed(slide_file, notebook_dir, output_dir, item_type='notebook'):
      source_pdf = notebook_dir / slide_file
      if not source_pdf.exists():
          # Try as absolute path from project root
          source_pdf = Path(slide_file)
          if not source_pdf.exists():
              print(f"\n ERROR: Slide file not found: {slide_file}") ...
              sys.exit(1)
      ... copy ...
      thumb_name = create_slide_thumbnail(source_pdf, output_dir)
      slide_id = f"slides-{source_pdf.stem}".replace(' ', '-').replace('.', '-')
      if thumb_name: preview_html = <img ...> else: preview_html = <div ...>
  \<close>
\<close>

definition generate_slide_embed :: "env \<Rightarrow> string \<Rightarrow> path \<Rightarrow> error + slide_embed" where
  "generate_slide_embed e slide_file notebook_dir =
     (if \<not> exists e (joinpath notebook_dir slide_file) \<and> \<not> exists e (parse_path slide_file)
      then Inl (SystemExit 1)
      else
        (let source_pdf = (if exists e (joinpath notebook_dir slide_file)
                           then joinpath notebook_dir slide_file else parse_path slide_file);
             thumb_name = thumbnail e source_pdf
         in Inr \<lparr>slide_id = map (\<lambda>c. if c = CHR '' '' \<or> c = CHR ''.'' then CHR ''-'' else c)
                               (''slides-'' @ path_stem source_pdf),
                  slide_ref = slide_file,
                  slide_preview = (case thumb_name of
                                     Some t \<Rightarrow> if t \<noteq> [] then Thumbnail t else Placeholder
                                   | None \<Rightarrow> Placeholder)\<rparr>))"

subsection \<open>The markdown processor\<close>

text \<open>
  \<^verbatim>\<open>re.match(r'^---\s*\n(.*?)\n---\s*\n(.*)$', content, re.DOTALL)\<close>, as the backtracking
  matcher finds it. \<open>closing t\<close> matches \<^verbatim>\<open>\n---\s*\n(.*)$\<close> at the start of \<open>t\<close>: the
  greedy \<^verbatim>\<open>\s*\<close> gives back characters down to the last newline of the whitespace
  behind the dashes, and the rest of the text is the second group. \<open>find_closing\<close>
  lengthens the lazy first group one character at a time. \<open>try_openings\<close> goes through
  the newlines that the first \<^verbatim>\<open>\s*\<close> may stop before, the last one first.
\<close>

definition closing :: "string \<Rightarrow> string option" where
  "closing t =
     (if prefix (nl @ ''---'') t
      then (let r = drop 4 t;
                w = takeWhile isspace r
            in if CHR 0x0A \<in> set w
               then Some (drop (length w - length (takeWhile (\<lambda>x. x \<noteq> CHR 0x0A) (rev w))) r)
               else None)
      else None)"

fun find_closing :: "string \<Rightarrow> string \<Rightarrow> (string \<times> string) option" where
  "find_closing group1 [] = (case closing [] of Some body \<Rightarrow> Some (group1, body) | None \<Rightarrow> None)"
| "find_closing group1 (c # cs) =
     (case closing (c # cs) of
        Some body \<Rightarrow> Some (group1, body)
      | None \<Rightarrow> find_closing (group1 @ [c]) cs)"

fun try_openings :: "string \<Rightarrow> nat list \<Rightarrow> (string \<times> string) option" where
  "try_openings rest [] = None"
| "try_openings rest (k # ks) =
     (case find_closing [] (drop (k + 1) rest) of
        Some groups \<Rightarrow> Some groups
      | None \<Rightarrow> try_openings rest ks)"

definition match_frontmatter :: "string \<Rightarrow> (string \<times> string) option" where
  "match_frontmatter content =
     (if prefix ''---'' content
      then (let rest = drop 3 content;
                w = takeWhile isspace rest
            in try_openings rest (rev (filter (\<lambda>k. w ! k = CHR 0x0A) [0 ..< length w])))
      else None)"

text \<open>
  \<^verbatim>\<open>
  def extract_markdown_frontmatter(content):
      match = re.match(pattern, content, re.DOTALL)
      if match:
          try:
              frontmatter = yaml.safe_load(yaml_content)
              return frontmatter, markdown_content
          except:
              return {}, content
      return {}, content
  \<close>
\<close>

definition extract_markdown_frontmatter :: "env \<Rightarrow> string \<Rightarrow> json \<times> string" where
  "extract_markdown_frontmatter e content =
     (case match_frontmatter content of
        Some (yaml_content, markdown_content) \<Rightarrow>
          (case yaml_safe_load e yaml_content of
             Some frontmatter \<Rightarrow> (frontmatter, markdown_content)
           | None \<Rightarrow> (JObj [], content))
      | None \<Rightarrow> (JObj [], content))"

text \<open>
  The page that \<^verbatim>\<open>process_markdown\<close> writes: the pieces of \<^verbatim>\<open>full_content\<close> in order,
  handed to \<^verbatim>\<open>markdown_to_html\<close>, which renders them with the \<^verbatim>\<open>markdown\<close> package or,
  without it, wraps the text in \<^verbatim>\<open><pre>\<close> tags.
\<close>

datatype block =
    TitleBlock string
  | TocBlock string
  | DownloadBlock string
  | SlidesBlock slide_embed
  | LinksBlock "string list"
  | BodyBlock string

datatype rendering = MarkdownRendered | PreFormatted

record page =
  blocks :: "block list"
  rendered :: rendering

definition markdown_to_html :: "env \<Rightarrow> block list \<Rightarrow> page" where
  "markdown_to_html e content =
     \<lparr>blocks = content, rendered = (if markdown_pkg e then MarkdownRendered else PreFormatted)\<rparr>"

text \<open>
  \<^verbatim>\<open>
  for link in frontmatter['links']:
      name = link.get('name', 'Link')
      url = link.get('url', '#')
      desc = link.get('description', '')
      if desc:
          full_content += f"- [{name}]({url}) - {desc}\n"
      else:
          full_content += f"- [{name}]({url})\n"
  \<close>
\<close>

definition markdown_link_line :: "env \<Rightarrow> json \<Rightarrow> error + string" where
  "markdown_link_line e link =
     bindE (py_get link ''name'' (JStr ''Link'')) (\<lambda>name.
     bindE (py_get link ''url'' (JStr ''#'')) (\<lambda>url.
     bindE (py_get link ''description'' (JStr [])) (\<lambda>desc.
       Inr (if truthy desc
            then ''- ['' @ fmt e name @ '']('' @ fmt e url @ '') - '' @ fmt e desc @ nl
            else ''- ['' @ fmt e name @ '']('' @ fmt e url @ '')'' @ nl))))"

fun markdown_link_lines :: "env \<Rightarrow> json list \<Rightarrow> error + string list" where
  "markdown_link_lines e [] = Inr []"
| "markdown_link_lines e (link # rest) =
     bindE (markdown_link_line e link) (\<lambda>l.
     bindE (markdown_link_lines e rest) (\<lambda>ls. Inr (l # ls)))"

record md_result =
  md_page :: page
  md_zip :: "zip_state option"
  md_info :: json

text \<open>
  \<^verbatim>\<open>process_markdown(markdown_path, output_dir, config, section_slides)\<close>, where \<open>content\<close>
  is the text of the file, \<open>base_name\<close> is \<^verbatim>\<open>markdown_path.stem\<close> and \<open>markdown_dir\<close> is
  \<^verbatim>\<open>markdown_path.parent\<close>. The result \<open>Inr None\<close> is the return of \<^verbatim>\<open>None\<close> behind the
  message "Skipping ... - no frontmatter". \<^verbatim>\<open>copy_markdown_referenced_files\<close> acts on the
  output directory alone.
\<close>

definition process_markdown ::
  "env \<Rightarrow> string \<Rightarrow> string \<Rightarrow> path \<Rightarrow> config \<Rightarrow> string option \<Rightarrow> error + md_result option" where
  "process_markdown e content base_name markdown_dir config section_slides =
     (case extract_markdown_frontmatter e content of (frontmatter, markdown_content) \<Rightarrow>
     if \<not> truthy frontmatter then Inr None else
     bindE (py_get frontmatter ''slides'' JNull) (\<lambda>slides.
     bindE (case section_slides of
              Some s \<Rightarrow> if \<not> truthy slides \<and> s \<noteq> [] then py_setitem frontmatter ''slides'' (JStr s)
                        else Inr frontmatter
            | None \<Rightarrow> Inr frontmatter) (\<lambda>frontmatter.
     bindE (py_get frontmatter ''title'' (JStr base_name)) (\<lambda>title.
     bindE (py_get frontmatter ''data_files'' JNull) (\<lambda>data_files.
     bindE (if truthy data_files
            then bindE (py_iter data_files) (\<lambda>ps.
                 bindE (data_patterns_of ps) (\<lambda>data_patterns.
                   Inr (Some (create_data_zip e data_patterns (base_name @ ''-data.zip'')
                                markdown_dir))))
            else Inr None) (\<lambda>zip.
     bindE (py_get frontmatter ''links'' JNull) (\<lambda>links.
     (let toc = generate_toc_from_markdown markdown_content (truthy links) in
     bindE (py_get frontmatter ''slides'' JNull) (\<lambda>slide_file.
     bindE (if truthy slide_file
            then (case slide_file of
                    JStr s \<Rightarrow> bindE (generate_slide_embed e s markdown_dir) (\<lambda>embed.
                                Inr [SlidesBlock embed])
                  | _ \<Rightarrow> Inl TypeError)
            else Inr []) (\<lambda>slide_blocks.
     bindE (if truthy links
            then bindE (py_iter links) (\<lambda>ls.
                 bindE (markdown_link_lines e ls) (\<lambda>lls. Inr [LinksBlock lls]))
            else Inr []) (\<lambda>links_blocks.
     bindE (py_get frontmatter ''description'' (JStr [])) (\<lambda>description.
     bindE (py_get frontmatter ''order'' JNull) (\<lambda>order.
       Inr (Some
         \<lparr>md_page = markdown_to_html e
            ([TitleBlock (fmt e title)]
             @ (if toc \<noteq> [] then [TocBlock toc] else [])
             @ (if truthy data_files then [DownloadBlock (base_name @ ''-data.zip'')] else [])
             @ slide_blocks @ links_blocks @ [BodyBlock markdown_content]),
          md_zip = zip,
          md_info = JObj
            [(''name'', JStr base_name),
             (''title'', title),
             (''description'', description),
             (''html_file'', JStr (base_name @ ''.html'')),
             (''data_file'', if truthy data_files then JStr (base_name @ ''-data.zip'')
                             else JNull),
             (''section'', JStr (path_name markdown_dir)),
             (''type'', JStr ''markdown''),
             (''order'', order),
             (''links'', links),
             (''slides'', slide_file)]\<rparr>))))))))))))))"

subsection \<open>The index builder\<close>

text \<open>
  The title under which a section of the configuration is listed:
  \<^verbatim>\<open>section_cfg.get('title', section_cfg.get('folder'))\<close>, for a mapping only.
\<close>

fun cfg_title :: "section_cfg \<Rightarrow> string option" where
  "cfg_title (SectionDict folder (Some t) slides) = Some t"
| "cfg_title (SectionDict folder None slides) = folder"
| "cfg_title (SectionStr s) = None"

fun cfg_slides :: "section_cfg \<Rightarrow> string option" where
  "cfg_slides (SectionDict folder t slides) = slides"
| "cfg_slides (SectionStr s) = None"

fun is_dict :: "section_cfg \<Rightarrow> bool" where
  "is_dict (SectionDict folder t slides) = True"
| "is_dict (SectionStr s) = False"

text \<open>
  \<^verbatim>\<open>
  for section_cfg in config.get('sections', []):
      if isinstance(section_cfg, dict):
          section_configs[section_cfg.get('title', section_cfg.get('folder'))] = section_cfg
  \<close>
  A later entry with the same title replaces an earlier one; \<open>section_configs\<close> looks a
  title up.
\<close>

definition section_configs :: "config \<Rightarrow> string \<Rightarrow> section_cfg option" where
  "section_configs config t =
     find (\<lambda>c. cfg_title c = Some t) (rev (filter is_dict (sections config)))"

text \<open>
  \<^verbatim>\<open>
  for nb in notebooks:
      section = nb['section']
      if section not in sections:
          sections[section] = []
      sections[section].append(nb)
  \<close>
  The dictionary \<open>sections\<close> as an association list, in the order of insertion.
\<close>

definition group_item :: "(string \<times> item list) list \<Rightarrow> item \<Rightarrow> (string \<times> item list) list" where
  "group_item secs nb =
     (case map_of secs (item_section nb) of
        None \<Rightarrow> secs @ [(item_section nb, [nb])]
      | Some nbs \<Rightarrow> AList.update (item_section nb) (nbs @ [nb]) secs)"

definition group_by_section :: "item list \<Rightarrow> (string \<times> item list) list" where
  "group_by_section notebooks = foldl group_item [] notebooks"

text \<open>
  \<^verbatim>\<open>
  # Process sections in the order they appear in config
  section_order = []
  for section_cfg in config.get('sections', []):
      if isinstance(section_cfg, dict):
          title = section_cfg.get('title', section_cfg.get('folder'))
          if title in sections:
              section_order.append(title)
  # Add any sections not in config at the end
  for section in sorted(sections.keys()):
      if section not in section_order:
          section_order.append(section)
  \<close>
\<close>

definition configured_order :: "config \<Rightarrow> (string \<times> item list) list \<Rightarrow> string list" where
  "configured_order config secs =
     concat (map (\<lambda>section_cfg.
                    if is_dict section_cfg
                    then (case cfg_title section_cfg of
                            Some t \<Rightarrow> if t \<in> fst ` set secs then [t] else []
                          | None \<Rightarrow> [])
                    else [])
                 (sections config))"

definition section_order :: "config \<Rightarrow> (string \<times> item list) list \<Rightarrow> string list" where
  "section_order config secs =
     foldl (\<lambda>ord s. if s \<notin> set ord then ord @ [s] else ord)
       (configured_order config secs) (sorted_py (\<lambda>s. s) (map fst secs))"

text \<open>
  The links of an item are walked when the item is rendered:
  \<^verbatim>\<open>
  if item.get('links'):
      for link in item['links']:
          name = link.get('name', 'Link') ...
  \<close>
\<close>

fun check_links :: "json list \<Rightarrow> error + unit" where
  "check_links [] = Inr ()"
| "check_links (JObj kvs # ls) = check_links ls"
| "check_links (_ # ls) = Inl AttributeError"

fun render_items :: "item list \<Rightarrow> error + unit" where
  "render_items [] = Inr ()"
| "render_items (it # its) =
     bindE (if truthy (links it) then bindE (py_iter (links it)) check_links else Inr ()) (\<lambda>u.
       render_items its)"

text \<open>
  One group of the index page: the section's heading, the embed of the section's slides
  if the configuration names some, and the section's items in their order.
\<close>

record index_group =
  group_title :: string
  group_slides :: "slide_embed option"
  group_items :: "item list"

text \<open>
  The body of \<^verbatim>\<open>for section in section_order:\<close>. The slides of a section are looked for
  beside the section's folder:
  \<^verbatim>\<open>
  section_dir = Path(section_items[0]['section_folder']) if section_items else Path('.')
  slide_html = generate_slide_embed(section_cfg['slides'], section_dir.parent, ...)
  \<close>
\<close>

definition index_section ::
  "env \<Rightarrow> config \<Rightarrow> (string \<times> item list) list \<Rightarrow> string \<Rightarrow> error + index_group" where
  "index_section e config secs s =
     (let section_items = (case map_of secs s of Some nbs \<Rightarrow> nbs | None \<Rightarrow> []);
          slides = (case section_configs config s of Some c \<Rightarrow> cfg_slides c | None \<Rightarrow> None)
      in
     bindE (case slides of
              Some sl \<Rightarrow>
                if sl \<noteq> []
                then (let section_dir = (case section_items of
                                          it # _ \<Rightarrow> parse_path (section_folder it)
                                        | [] \<Rightarrow> parse_path ''.'')
                      in bindE (generate_slide_embed e sl (path_parent section_dir)) (\<lambda>embed.
                           Inr (Some embed)))
                else Inr None
            | None \<Rightarrow> Inr None) (\<lambda>embed.
     bindE (render_items (sorted_items section_items)) (\<lambda>u.
       Inr \<lparr>group_title = s, group_slides = embed,
            group_items = sorted_items section_items\<rparr>)))"

fun index_sections ::
  "env \<Rightarrow> config \<Rightarrow> (string \<times> item list) list \<Rightarrow> string list \<Rightarrow> error + index_group list" where
  "index_sections e config secs [] = Inr []"
| "index_sections e config secs (s # ss) =
     bindE (index_section e config secs s) (\<lambda>g.
     bindE (index_sections e config secs ss) (\<lambda>gs. Inr (g # gs)))"

text \<open>
  What \<^verbatim>\<open>create_index\<close> reads of the dictionary of an item. The model covers the
  dictionaries that \<^verbatim>\<open>main\<close> hands over: \<^verbatim>\<open>section\<close>, \<^verbatim>\<open>section_folder\<close> and \<^verbatim>\<open>name\<close> are
  strings, \<^verbatim>\<open>order\<close> is an integer or \<^verbatim>\<open>None\<close>. On any other dictionary it stops with
  \<open>Unmodelled\<close>.
\<close>

definition str_field :: "json \<Rightarrow> string \<Rightarrow> error + string" where
  "str_field nb k = (case py_getitem nb k of Inr (JStr s) \<Rightarrow> Inr s | _ \<Rightarrow> Inl Unmodelled)"

definition order_field :: "json \<Rightarrow> error + int option" where
  "order_field nb =
     (case py_getitem nb ''order'' of
        Inr (JNum n) \<Rightarrow> Inr (Some n)
      | Inr JNull \<Rightarrow> Inr None
      | _ \<Rightarrow> Inl Unmodelled)"

definition item_of_info :: "json \<Rightarrow> error + item" where
  "item_of_info nb =
     bindE (str_field nb ''section'') (\<lambda>sec.
     bindE (str_field nb ''section_folder'') (\<lambda>folder.
     bindE (str_field nb ''name'') (\<lambda>n.
     bindE (order_field nb) (\<lambda>ord.
     bindE (case py_getitem nb ''title'' of Inr t \<Rightarrow> Inr t | Inl _ \<Rightarrow> Inl Unmodelled) (\<lambda>t.
     bindE (py_get nb ''links'' JNull) (\<lambda>ls.
     bindE (py_get nb ''type'' JNull) (\<lambda>ty.
       Inr \<lparr>name = n, title = t, item_section = sec, section_folder = folder,
            order = ord, links = ls, is_markdown = (ty = JStr ''markdown'')\<rparr>)))))))"

fun items_of_infos :: "json list \<Rightarrow> error + item list" where
  "items_of_infos [] = Inr []"
| "items_of_infos (nb # nbs) =
     bindE (item_of_info nb) (\<lambda>it.
     bindE (items_of_infos nbs) (\<lambda>its. Inr (it # its)))"

text \<open>
  \<^verbatim>\<open>create_index(notebooks, config, output_dir)\<close>: the groups of the index page, in the
  order in which they are written. The text of the items and the template are not
  part of the model. The first line of the function asks for \<^verbatim>\<open>config['github_repo']\<close>.
\<close>

definition create_index :: "env \<Rightarrow> config \<Rightarrow> json list \<Rightarrow> error + index_group list" where
  "create_index e config notebooks =
     (case github_repo config of
        None \<Rightarrow> Inl (KeyError ''github_repo'')
      | Some repo \<Rightarrow>
          bindE (items_of_infos notebooks) (\<lambda>its.
            (let secs = group_by_section its
             in index_sections e config secs (section_order config secs))))"

subsection \<open>The main routine\<close>

text \<open>
  \<^verbatim>\<open>
  if isinstance(section, dict):
      folder = section.get('folder')
      title = section.get('title', folder)
      section_slides = section.get('slides')
  else:
      # Handle if sections is a list of strings
      folder = section
      title = section
      section_slides = None
  \<close>
\<close>

fun main_folder :: "section_cfg \<Rightarrow> string option" where
  "main_folder (SectionDict folder t slides) = folder"
| "main_folder (SectionStr s) = Some s"

fun main_title :: "section_cfg \<Rightarrow> string option" where
  "main_title (SectionDict folder (Some t) slides) = Some t"
| "main_title (SectionDict folder None slides) = folder"
| "main_title (SectionStr s) = Some s"

fun main_slides :: "section_cfg \<Rightarrow> string option" where
  "main_slides (SectionDict folder t slides) = slides"
| "main_slides (SectionStr s) = None"

text \<open>A loop whose body may raise.\<close>

fun foldE :: "('s \<Rightarrow> 'a \<Rightarrow> error + 's) \<Rightarrow> 's \<Rightarrow> 'a list \<Rightarrow> error + 's" where
  "foldE f st [] = Inr st"
| "foldE f st (x # xs) = bindE (f st x) (\<lambda>st. foldE f st xs)"

record run_state =
  processed_items :: "json list"
  messages :: "event list"

text \<open>
  \<^verbatim>\<open>
  notebook_info['section'] = title
  notebook_info['section_folder'] = folder
  if section_slides and not notebook_info.get('slides'):
      notebook_info['section_slides'] = section_slides
  processed_items.append(notebook_info)
  \<close>
\<close>

definition mark_item :: "json \<Rightarrow> string \<Rightarrow> string \<Rightarrow> string option \<Rightarrow> error + json" where
  "mark_item item_info section_title folder section_slides =
     bindE (py_setitem item_info ''section'' (JStr section_title)) (\<lambda>item_info.
     bindE (py_setitem item_info ''section_folder'' (JStr folder)) (\<lambda>item_info.
     bindE (py_get item_info ''slides'' JNull) (\<lambda>slides.
       (case section_slides of
          Some s \<Rightarrow> if s \<noteq> [] \<and> \<not> truthy slides
                    then py_setitem item_info ''section_slides'' (JStr s)
                    else Inr item_info
        | None \<Rightarrow> Inr item_info))))"

text \<open>
  The body of \<^verbatim>\<open>for notebook_path in Path(folder).glob('*.ipynb'):\<close>. A file that
  \<^verbatim>\<open>json.load\<close> cannot read raises \<^verbatim>\<open>JSONDecodeError\<close>, a \<^verbatim>\<open>ValueError\<close>.
\<close>

definition main_notebook ::
  "env \<Rightarrow> config \<Rightarrow> string \<Rightarrow> string \<Rightarrow> string option \<Rightarrow> run_state \<Rightarrow> string \<times> json option
     \<Rightarrow> error + run_state" where
  "main_notebook e config section_title folder section_slides st file =
     (let notebook_path = joinpath (parse_path folder) (fst file)
      in if sublist ''.ipynb_checkpoints'' (str_path notebook_path) then Inr st
         else (case snd file of
                 None \<Rightarrow> Inl ValueError
               | Some notebook \<Rightarrow>
                   bindE (process_notebook e notebook (path_stem notebook_path)
                            (path_parent notebook_path) config section_slides) (\<lambda>r.
                     (case r of
                        None \<Rightarrow>
                          Inr (st\<lparr>messages := messages st
                                      @ [SkippingNotebook (str_path notebook_path)]\<rparr>)
                      | Some res \<Rightarrow>
                          bindE (mark_item (info res) section_title folder section_slides)
                            (\<lambda>i. Inr (st\<lparr>processed_items := processed_items st @ [i]\<rparr>))))))"

text \<open>The body of \<^verbatim>\<open>for markdown_path in Path(folder).glob('*.md'):\<close>.\<close>

definition main_markdown ::
  "env \<Rightarrow> config \<Rightarrow> string \<Rightarrow> string \<Rightarrow> string option \<Rightarrow> run_state \<Rightarrow> string \<times> string
     \<Rightarrow> error + run_state" where
  "main_markdown e config section_title folder section_slides st file =
     (let markdown_path = joinpath (parse_path folder) (fst file)
      in bindE (process_markdown e (snd file) (path_stem markdown_path)
                  (path_parent markdown_path) config section_slides) (\<lambda>r.
           (case r of
              None \<Rightarrow>
                Inr (st\<lparr>messages := messages st @ [SkippingMarkdown (str_path markdown_path)]\<rparr>)
            | Some res \<Rightarrow>
                bindE (mark_item (md_info res) section_title folder section_slides)
                  (\<lambda>i. Inr (st\<lparr>processed_items := processed_items st @ [i]\<rparr>)))))"

text \<open>
  The body of \<^verbatim>\<open>for section in sections:\<close>.
  \<^verbatim>\<open>
  if not folder or not Path(folder).exists():
      print(f"Warning: Section folder '{folder}' not found")
      continue
  \<close>
\<close>

definition main_section :: "env \<Rightarrow> config \<Rightarrow> run_state \<Rightarrow> section_cfg \<Rightarrow> error + run_state" where
  "main_section e config st section =
     (case (main_folder section, main_title section) of
        (Some folder, Some section_title) \<Rightarrow>
          if folder \<noteq> [] \<and> exists e (parse_path folder)
          then bindE (foldE (main_notebook e config section_title folder (main_slides section))
                        st (notebooks_in e folder)) (\<lambda>st.
                 foldE (main_markdown e config section_title folder (main_slides section))
                   st (markdowns_in e folder))
          else Inr (st\<lparr>messages := messages st @ [SectionFolderNotFound folder]\<rparr>)
      | _ \<Rightarrow> Inr (st\<lparr>messages := messages st @ [SectionFolderNotFound ''None'']\<rparr>))"

text \<open>
  What a run that ends without an exception leaves: the dictionaries of the published
  items, the index page if one was written, and the warnings of \<^verbatim>\<open>main\<close>.
\<close>

record run =
  published :: "json list"
  index_page :: "index_group list option"
  warnings :: "event list"

text \<open>
  \<^verbatim>\<open>
  sections = config.get('sections', [])
  if not sections:
      print("Warning: No sections defined in workshop-config.yaml")
      return
  processed_items = []
  for section in sections: ...
  if processed_items:
      create_index(processed_items, config, output_dir)
  \<close>
\<close>

definition main :: "env \<Rightarrow> config \<Rightarrow> error + run" where
  "main e config =
     (if sections config = []
      then Inr \<lparr>published = [], index_page = None, warnings = [NoSections]\<rparr>
      else bindE (foldE (main_section e config) \<lparr>processed_items = [], messages = []\<rparr>
                    (sections config)) (\<lambda>st.
             if processed_items st \<noteq> []
             then bindE (create_index e config (processed_items st)) (\<lambda>groups.
                    Inr \<lparr>published = processed_items st, index_page = Some groups,
                         warnings = messages st\<rparr>)
             else Inr \<lparr>published = [], index_page = None, warnings = messages st\<rparr>))"

text \<open>
  The exit status of the process: 0 when \<^verbatim>\<open>main\<close> returns, the argument of \<^verbatim>\<open>sys.exit\<close>,
  and 1 when an exception is not caught.
\<close>

fun exit_status :: "error + 'a \<Rightarrow> nat" where
  "exit_status (Inr r) = 0"
| "exit_status (Inl (SystemExit n)) = n"
| "exit_status (Inl err) = 1"

subsection \<open>Notions used to state the properties of the exit status\<close>

text \<open>
  The slide files that a run has declared: by a section of the configuration, by the
  workshop metadata of a notebook in a section folder, by the frontmatter of a markdown
  file in a section folder.
\<close>

definition notebook_slides :: "json \<Rightarrow> string list" where
  "notebook_slides notebook =
     (case get_notebook_metadata notebook of
        Inr metadata \<Rightarrow> (case py_get metadata ''slides'' JNull of
                           Inr (JStr s) \<Rightarrow> [s]
                         | _ \<Rightarrow> [])
      | Inl _ \<Rightarrow> [])"

definition markdown_slides :: "env \<Rightarrow> string \<Rightarrow> string list" where
  "markdown_slides e content =
     (case py_get (fst (extract_markdown_frontmatter e content)) ''slides'' JNull of
        Inr (JStr s) \<Rightarrow> [s]
      | _ \<Rightarrow> [])"

definition folder_slides :: "env \<Rightarrow> string \<Rightarrow> string list" where
  "folder_slides e folder =
     concat (map (\<lambda>file. case snd file of Some notebook \<Rightarrow> notebook_slides notebook
                                        | None \<Rightarrow> [])
                 (notebooks_in e folder))
     @ concat (map (\<lambda>file. markdown_slides e (snd file)) (markdowns_in e folder))"

definition section_declared_slides :: "env \<Rightarrow> section_cfg \<Rightarrow> string list" where
  "section_declared_slides e section =
     (case main_slides section of Some s \<Rightarrow> [s] | None \<Rightarrow> [])
     @ (case main_folder section of Some folder \<Rightarrow> folder_slides e folder | None \<Rightarrow> [])"

definition declared_slides :: "env \<Rightarrow> config \<Rightarrow> string list" where
  "declared_slides e config = concat (map (section_declared_slides e) (sections config))"

subsection \<open>Small workshops, for the examples of the main routine\<close>

text \<open>A notebook that has a title in its workshop metadata and nothing else.\<close>

definition plain_notebook :: json where
  "plain_notebook =
     JObj [(''cells'', JArr []),
           (''metadata'', JObj [(''workshop'', JObj [(''title'', JStr ''Lesson'')])])]"

text \<open>
  Two section folders, \<^verbatim>\<open>zeta\<close> and \<^verbatim>\<open>alpha\<close>, with one notebook each, and a configuration
  that lists them as plain strings, \<^verbatim>\<open>sections: [zeta, alpha]\<close>.
\<close>

definition listed_env :: env where
  "listed_env =
     \<lparr>exists = (\<lambda>p. p = Path False [''zeta''] \<or> p = Path False [''alpha'']),
      glob = (\<lambda>s. []),
      py_str = (\<lambda>v. []),
      yaml_safe_load = (\<lambda>s. None),
      thumbnail = (\<lambda>p. None),
      markdown_pkg = True,
      notebooks_in = (\<lambda>folder. if folder = ''zeta'' then [(''z.ipynb'', Some plain_notebook)]
                               else if folder = ''alpha'' then [(''a.ipynb'', Some plain_notebook)]
                               else []),
      markdowns_in = (\<lambda>folder. [])\<rparr>"

definition listed_config :: config where
  "listed_config =
     \<lparr>github_repo = Some ''jsoma/natural-pdf-workshop'',
      github_branch = Some ''main'',
      output_dir = Some ''docs'',
      sections = [SectionStr ''zeta'', SectionStr ''alpha'']\<rparr>"

text \<open>The dictionaries that \<^verbatim>\<open>main\<close> hands to \<^verbatim>\<open>create_index\<close> in that workshop.\<close>

definition listed_info :: "string \<Rightarrow> string \<Rightarrow> json" where
  "listed_info base_name folder =
     JObj [(''name'', JStr base_name),
           (''title'', JStr ''Lesson''),
           (''description'', JStr []),
           (''exercise_file'', JStr (base_name @ ''.ipynb'')),
           (''answers_file'', JStr (base_name @ ''-ANSWERS.ipynb'')),
           (''data_file'', JNull),
           (''section'', JStr folder),
           (''order'', JNull),
           (''links'', JNull),
           (''slides'', JNull),
           (''section_folder'', JStr folder)]"

definition listed_infos :: "json list" where
  "listed_infos = [listed_info ''z'' ''zeta'', listed_info ''a'' ''alpha'']"

text \<open>
  One section folder \<^verbatim>\<open>intro\<close>, listed without slides, that holds one notebook whose
  links are written as plain addresses, \<^verbatim>\<open>"links": ["https://example.com"]\<close>.
\<close>

definition links_notebook :: json where
  "links_notebook =
     JObj [(''cells'', JArr []),
           (''metadata'',
            JObj [(''workshop'',
                   JObj [(''title'', JStr ''Lesson''),
                         (''links'', JArr [JStr ''https://example.com''])])])]"

definition links_env :: env where
  "links_env =
     \<lparr>exists = (\<lambda>p. p = Path False [''intro'']),
      glob = (\<lambda>s. []),
      py_str = (\<lambda>v. []),
      yaml_safe_load = (\<lambda>s. None),
      thumbnail = (\<lambda>p. None),
      markdown_pkg = True,
      notebooks_in = (\<lambda>folder. if folder = ''intro'' then [(''lesson.ipynb'', Some links_notebook)]
                               else []),
      markdowns_in = (\<lambda>folder. [])\<rparr>"

definition links_config :: config where
  "links_config =
     \<lparr>github_repo = Some ''jsoma/natural-pdf-workshop'',
      github_branch = Some ''main'',
      output_dir = Some ''docs'',
      sections = [SectionDict (Some ''intro'') (Some ''Introduction'') None]\<rparr>"

text \<open>
  The section \<^verbatim>\<open>intro\<close> listed with its slides, \<^verbatim>\<open>intro/slides.pdf\<close>, which do not exist.
  In the first workshop the folder holds a notebook without workshop metadata, in the
  second one the notebook \<open>plain_notebook\<close>.
\<close>

definition bare_notebook :: json where
  "bare_notebook = JObj [(''cells'', JArr []), (''metadata'', JObj [])]"

definition skipped_env :: env where
  "skipped_env =
     \<lparr>exists = (\<lambda>p. p = Path False [''intro'']),
      glob = (\<lambda>s. []),
      py_str = (\<lambda>v. []),
      yaml_safe_load = (\<lambda>s. None),
      thumbnail = (\<lambda>p. None),
      markdown_pkg = True,
      notebooks_in = (\<lambda>folder. if folder = ''intro'' then [(''notes.ipynb'', Some bare_notebook)]
                               else []),
      markdowns_in = (\<lambda>folder. [])\<rparr>"

definition missing_slides_env :: env where
  "missing_slides_env =
     \<lparr>exists = (\<lambda>p. p = Path False [''intro'']),
      glob = (\<lambda>s. []),
      py_str = (\<lambda>v. []),
      yaml_safe_load = (\<lambda>s. None),
      thumbnail = (\<lambda>p. None),
      markdown_pkg = True,
      notebooks_in = (\<lambda>folder. if folder = ''intro'' then [(''lesson.ipynb'', Some plain_notebook)]
                               else []),
      markdowns_in = (\<lambda>folder. [])\<rparr>"

section \<open>Properties\<close>

subsection \<open>Order of the items of a section\<close>

lemma sort_key_item_le:
  "order a = Some x \<Longrightarrow> order b = Some y \<Longrightarrow> sort_key_item a \<le> sort_key_item b \<longleftrightarrow> x \<le> y"
  by (auto simp: sort_key_item_def less_eq_prod_def)

lemma sorted_with_order:
  assumes "sorted (map sort_key_item xs)"
  shows "sorted (map (\<lambda>it. the (order it)) (filter (\<lambda>it. order it \<noteq> None) xs))"
  using assms
proof (induction xs)
  case Nil
  then show ?case by simp
next
  case (Cons a xs)
  then have tail: "sorted (map (\<lambda>it. the (order it)) (filter (\<lambda>it. order it \<noteq> None) xs))"
    by simp
  show ?case
  proof (cases "order a")
    case None
    with tail show ?thesis by simp
  next
    case (Some x)
    have "x \<le> the (order b)" if "b \<in> set xs" "order b \<noteq> None" for b
    proof -
      from that obtain y where y: "order b = Some y" by auto
      from Cons.prems that have "sort_key_item a \<le> sort_key_item b" by simp
      with Some y show ?thesis by (simp add: sort_key_item_le)
    qed
    with Some tail show ?thesis by auto
  qed
qed

lemma sorted_rev_sorted_py_reverse:
  "sorted (rev (map key (sorted_py_reverse key xs)))"
  by (simp add: sorted_py_reverse_def rev_map [symmetric])

lemma mset_sorted_items: "mset (sorted_items xs) = mset xs"
proof -
  have "mset (filter (\<lambda>it. order it \<noteq> None) ys) + mset (filter (\<lambda>it. order it = None) ys) = mset ys"
    for ys :: "item list"
    by (induction ys) auto
  then show ?thesis
    by (simp add: sorted_items_def sorted_py_def sorted_py_reverse_def Let_def)
qed

lemma sorted_items_split:
  obtains ws ns where "sorted_items xs = ws @ ns"
    and "\<forall>it \<in> set ws. order it \<noteq> None"
    and "\<forall>it \<in> set ns. order it = None"
    and "sorted (map (\<lambda>it. the (order it)) ws)"
    and "sorted (rev (map name ns))"
proof -
  define s where "s = sorted_py sort_key_item xs"
  define ws where "ws = filter (\<lambda>it. order it \<noteq> None) s"
  define ns where "ns = sorted_py_reverse name (filter (\<lambda>it. order it = None) s)"
  have "sorted_items xs = ws @ ns"
    by (simp add: sorted_items_def s_def ws_def ns_def Let_def)
  moreover have "\<forall>it \<in> set ws. order it \<noteq> None"
    by (simp add: ws_def)
  moreover have "\<forall>it \<in> set ns. order it = None"
    by (simp add: ns_def sorted_py_reverse_def)
  moreover have "sorted (map (\<lambda>it. the (order it)) ws)"
    unfolding ws_def s_def sorted_py_def by (rule sorted_with_order) simp
  moreover have "sorted (rev (map name ns))"
    unfolding ns_def by (rule sorted_rev_sorted_py_reverse)
  ultimately show thesis by (rule that)
qed

lemma sorted_rev_nth_mono:
  assumes "sorted (rev ys)" "i \<le> j" "j < length ys"
  shows "ys ! j \<le> (ys ! i :: 'a::linorder)"
proof -
  have "rev ys ! (length ys - Suc j) \<le> rev ys ! (length ys - Suc i)"
    using assms by (intro sorted_nth_mono) auto
  with assms show ?thesis by (simp add: rev_nth)
qed

text \<open>
  Claim C6. Within a section, \<^verbatim>\<open>create_index\<close> lists exactly the section's items, and
  in the listing every item with an order precedes every item without one, the items
  with an order ascend by that value, and the items without one descend by name.
\<close>

theorem create_index_item_order:
  "mset (sorted_items section_items) = mset section_items \<and>
   (\<forall>i j. i < length section_items \<and> j < length section_items \<and>
      order (sorted_items section_items ! i) \<noteq> None \<and>
      order (sorted_items section_items ! j) = None \<longrightarrow> i < j) \<and>
   (\<forall>i j. i < j \<and> j < length section_items \<and>
      order (sorted_items section_items ! i) \<noteq> None \<and>
      order (sorted_items section_items ! j) \<noteq> None \<longrightarrow>
      the (order (sorted_items section_items ! i)) \<le> the (order (sorted_items section_items ! j))) \<and>
   (\<forall>i j. i < j \<and> j < length section_items \<and>
      order (sorted_items section_items ! i) = None \<and>
      order (sorted_items section_items ! j) = None \<longrightarrow>
      name (sorted_items section_items ! j) \<le> name (sorted_items section_items ! i))"
proof -
  obtain ws ns where r: "sorted_items section_items = ws @ ns"
    and ws_some: "\<forall>it \<in> set ws. order it \<noteq> None"
    and ns_none: "\<forall>it \<in> set ns. order it = None"
    and ws_sorted: "sorted (map (\<lambda>it. the (order it)) ws)"
    and ns_sorted: "sorted (rev (map name ns))"
    by (rule sorted_items_split)
  have len: "length section_items = length ws + length ns"
    using arg_cong [OF mset_sorted_items [of section_items], of size] by (simp add: r)
  have in_ws: "i < length ws" if "i < length (ws @ ns)" "order ((ws @ ns) ! i) \<noteq> None" for i
  proof (rule ccontr)
    assume "\<not> i < length ws"
    with that(1) have "(ws @ ns) ! i \<in> set ns"
      by (simp add: nth_append)
    with ns_none have "order ((ws @ ns) ! i) = None" by simp
    with that(2) show False by simp
  qed
  have in_ns: "length ws \<le> i" if "order ((ws @ ns) ! i) = None" for i
  proof (rule ccontr)
    assume "\<not> length ws \<le> i"
    then have "(ws @ ns) ! i \<in> set ws" by (simp add: nth_append)
    with ws_some have "order ((ws @ ns) ! i) \<noteq> None" by simp
    with that show False by simp
  qed
  have precede: "i < j"
    if "i < length (ws @ ns)" "order ((ws @ ns) ! i) \<noteq> None" "order ((ws @ ns) ! j) = None" for i j
    using in_ws [OF that(1,2)] in_ns [OF that(3)] by simp
  have ascending: "the (order ((ws @ ns) ! i)) \<le> the (order ((ws @ ns) ! j))"
    if "i < j" "j < length (ws @ ns)" "order ((ws @ ns) ! i) \<noteq> None" "order ((ws @ ns) ! j) \<noteq> None"
    for i j
  proof -
    have j: "j < length ws" using in_ws that by simp
    with that have "map (\<lambda>it. the (order it)) ws ! i \<le> map (\<lambda>it. the (order it)) ws ! j"
      using ws_sorted by (intro sorted_nth_mono) auto
    with that j show ?thesis by (simp add: nth_append)
  qed
  have descending: "name ((ws @ ns) ! j) \<le> name ((ws @ ns) ! i)"
    if "i < j" "j < length (ws @ ns)" "order ((ws @ ns) ! i) = None" "order ((ws @ ns) ! j) = None"
    for i j
  proof -
    have i: "length ws \<le> i" and j: "length ws \<le> j" using in_ns that by simp_all
    from that i j have "map name ns ! (j - length ws) \<le> map name ns ! (i - length ws)"
      using ns_sorted by (intro sorted_rev_nth_mono) auto
    with that i j show ?thesis by (simp add: nth_append)
  qed
  show ?thesis
    unfolding r len using precede ascending descending mset_sorted_items [of section_items]
    by (simp add: r)
qed

text \<open>
  The theorem at a section of four items: two carry an order, two do not.
\<close>

theorem create_index_item_order_witness:
  "sorted_items
     [\<lparr>name = ''a'', title = JStr ''A'', item_section = ''S'', section_folder = ''s'', order = None, links = JNull, is_markdown = False\<rparr>,
      \<lparr>name = ''b'', title = JStr ''B'', item_section = ''S'', section_folder = ''s'', order = Some 2, links = JNull, is_markdown = False\<rparr>,
      \<lparr>name = ''c'', title = JStr ''C'', item_section = ''S'', section_folder = ''s'', order = None, links = JNull, is_markdown = True\<rparr>,
      \<lparr>name = ''d'', title = JStr ''D'', item_section = ''S'', section_folder = ''s'', order = Some 1, links = JNull, is_markdown = False\<rparr>]
   = [\<lparr>name = ''d'', title = JStr ''D'', item_section = ''S'', section_folder = ''s'', order = Some 1, links = JNull, is_markdown = False\<rparr>,
      \<lparr>name = ''b'', title = JStr ''B'', item_section = ''S'', section_folder = ''s'', order = Some 2, links = JNull, is_markdown = False\<rparr>,
      \<lparr>name = ''c'', title = JStr ''C'', item_section = ''S'', section_folder = ''s'', order = None, links = JNull, is_markdown = True\<rparr>,
      \<lparr>name = ''a'', title = JStr ''A'', item_section = ''S'', section_folder = ''s'', order = None, links = JNull, is_markdown = False\<rparr>]
   \<and> (1::int) \<le> 2 \<and> ''a'' \<le> ''c''"
proof -
  let ?xs = "[\<lparr>name = ''a'', title = JStr ''A'', item_section = ''S'', section_folder = ''s'', order = None, links = JNull, is_markdown = False\<rparr>,
      \<lparr>name = ''b'', title = JStr ''B'', item_section = ''S'', section_folder = ''s'', order = Some 2, links = JNull, is_markdown = False\<rparr>,
      \<lparr>name = ''c'', title = JStr ''C'', item_section = ''S'', section_folder = ''s'', order = None, links = JNull, is_markdown = True\<rparr>,
      \<lparr>name = ''d'', title = JStr ''D'', item_section = ''S'', section_folder = ''s'', order = Some 1, links = JNull, is_markdown = False\<rparr>]"
  have ev: "sorted_items ?xs
   = [\<lparr>name = ''d'', title = JStr ''D'', item_section = ''S'', section_folder = ''s'', order = Some 1, links = JNull, is_markdown = False\<rparr>,
      \<lparr>name = ''b'', title = JStr ''B'', item_section = ''S'', section_folder = ''s'', order = Some 2, links = JNull, is_markdown = False\<rparr>,
      \<lparr>name = ''c'', title = JStr ''C'', item_section = ''S'', section_folder = ''s'', order = None, links = JNull, is_markdown = True\<rparr>,
      \<lparr>name = ''a'', title = JStr ''A'', item_section = ''S'', section_folder = ''s'', order = None, links = JNull, is_markdown = False\<rparr>]"
    by code_simp
  from create_index_item_order [of ?xs]
  have asc: "\<forall>i j. i < j \<and> j < length ?xs \<and>
      order (sorted_items ?xs ! i) \<noteq> None \<and> order (sorted_items ?xs ! j) \<noteq> None \<longrightarrow>
      the (order (sorted_items ?xs ! i)) \<le> the (order (sorted_items ?xs ! j))"
    and desc: "\<forall>i j. i < j \<and> j < length ?xs \<and>
      order (sorted_items ?xs ! i) = None \<and> order (sorted_items ?xs ! j) = None \<longrightarrow>
      name (sorted_items ?xs ! j) \<le> name (sorted_items ?xs ! i)"
    by blast+
  from asc [rule_format, of 0 1] have "(1::int) \<le> 2" by (simp add: ev)
  moreover from desc [rule_format, of 2 3] have "''a'' \<le> ''c''" by (simp add: ev)
  ultimately show ?thesis using ev by simp
qed

subsection \<open>The table of contents\<close>

text \<open>The scanner finds the second-level headings, line by line.\<close>

lemma split_on_unfold:
  "split_on c s = takeWhile (\<lambda>x. x \<noteq> c) s #
     (case dropWhile (\<lambda>x. x \<noteq> c) s of [] \<Rightarrow> [] | _ # rest \<Rightarrow> split_on c rest)"
  by (induction s) (auto split: list.splits)

lemma findall_h2_False:
  "findall_h2 False s =
     (case dropWhile (\<lambda>x. x \<noteq> CHR 0x0A) s of [] \<Rightarrow> [] | _ # rest \<Rightarrow> findall_h2 True rest)"
  by (induction s) auto

lemma prefix_h2_iff:
  "prefix ''## '' s \<longleftrightarrow> (\<exists>t. s = CHR ''#'' # CHR ''#'' # CHR '' '' # t)"
  by (auto simp: prefix_def)

lemma h2_line_takeWhile:
  "prefix ''## '' s \<Longrightarrow>
     takeWhile (\<lambda>x. x \<noteq> CHR 0x0A) s = ''## '' @ takeWhile (\<lambda>x. x \<noteq> CHR 0x0A) (drop 3 s) \<and>
     dropWhile (\<lambda>x. x \<noteq> CHR 0x0A) s = dropWhile (\<lambda>x. x \<noteq> CHR 0x0A) (drop 3 s)"
  by (auto simp: prefix_h2_iff)

lemma prefix_h2_takeWhile:
  "prefix ''## '' (takeWhile (\<lambda>x. x \<noteq> CHR 0x0A) s) \<longleftrightarrow> prefix ''## '' s"
proof
  assume "prefix ''## '' s"
  then show "prefix ''## '' (takeWhile (\<lambda>x. x \<noteq> CHR 0x0A) s)"
    by (auto simp: prefix_h2_iff)
next
  assume "prefix ''## '' (takeWhile (\<lambda>x. x \<noteq> CHR 0x0A) s)"
  moreover have "prefix (takeWhile (\<lambda>x. x \<noteq> CHR 0x0A) s) s"
    by (metis prefixI takeWhile_dropWhile_id)
  ultimately show "prefix ''## '' s"
    by (rule prefix_order.trans)
qed

lemma findall_h2_True:
  "findall_h2 True s =
     h2_of_line (takeWhile (\<lambda>x. x \<noteq> CHR 0x0A) s) @
     (case dropWhile (\<lambda>x. x \<noteq> CHR 0x0A) s of [] \<Rightarrow> [] | _ # rest \<Rightarrow> findall_h2 True rest)"
proof (cases s)
  case Nil
  then show ?thesis by (simp add: h2_of_line_def)
next
  case (Cons c cs)
  have unfold: "findall_h2 True s =
      (if True \<and> prefix ''## '' s \<and> takeWhile (\<lambda>x. x \<noteq> CHR 0x0A) (drop 3 s) \<noteq> []
       then takeWhile (\<lambda>x. x \<noteq> CHR 0x0A) (drop 3 s)
              # findall_h2 False (dropWhile (\<lambda>x. x \<noteq> CHR 0x0A) (drop 3 s))
       else findall_h2 (c = CHR 0x0A) cs)"
    unfolding Cons by (rule findall_h2.simps(2))
  show ?thesis
  proof (cases "prefix ''## '' s")
    case True
    note tk = h2_line_takeWhile [OF True]
    show ?thesis
    proof (cases "takeWhile (\<lambda>x. x \<noteq> CHR 0x0A) (drop 3 s) = []")
      case e: True
      from True obtain t where t: "s = CHR ''#'' # CHR ''#'' # CHR '' '' # t"
        by (auto simp: prefix_h2_iff)
      from e t have t': "takeWhile (\<lambda>x. x \<noteq> CHR 0x0A) t = []" by simp
      then have "dropWhile (\<lambda>x. x \<noteq> CHR 0x0A) t = t"
        by (metis append_Nil takeWhile_dropWhile_id)
      with t t' show ?thesis
        by (simp add: h2_of_line_def findall_h2_False)
    next
      case ne: False
      from unfold True ne
      have "findall_h2 True s = takeWhile (\<lambda>x. x \<noteq> CHR 0x0A) (drop 3 s)
              # findall_h2 False (dropWhile (\<lambda>x. x \<noteq> CHR 0x0A) (drop 3 s))"
        by (simp only: simp_thms if_True)
      moreover have "h2_of_line (takeWhile (\<lambda>x. x \<noteq> CHR 0x0A) s)
          = [takeWhile (\<lambda>x. x \<noteq> CHR 0x0A) (drop 3 s)]"
        using tk ne by (simp add: h2_of_line_def)
      ultimately show ?thesis
        using tk by (simp add: findall_h2_False)
    qed
  next
    case False
    then have "h2_of_line (takeWhile (\<lambda>x. x \<noteq> CHR 0x0A) s) = []"
      by (simp add: h2_of_line_def prefix_h2_takeWhile)
    moreover from unfold False have "findall_h2 True s = findall_h2 (c = CHR 0x0A) cs"
      by (simp only: simp_thms if_False)
    ultimately show ?thesis
      unfolding Cons by (auto simp: findall_h2_False)
  qed
qed

lemma findall_h2_lines:
  "findall_h2 True s = concat (map h2_of_line (split_on (CHR 0x0A) s))"
proof (induction "length s" arbitrary: s rule: less_induct)
  case less
  show ?case
  proof (cases "dropWhile (\<lambda>x. x \<noteq> CHR 0x0A) s")
    case Nil
    have "findall_h2 True s = h2_of_line (takeWhile (\<lambda>x. x \<noteq> CHR 0x0A) s) @ []"
      using findall_h2_True [of s] by (simp only: Nil list.case)
    moreover have "split_on (CHR 0x0A) s = [takeWhile (\<lambda>x. x \<noteq> CHR 0x0A) s]"
      using split_on_unfold [of "CHR 0x0A" s] by (simp only: Nil list.case)
    ultimately show ?thesis by simp
  next
    case (Cons x rest)
    have "length (dropWhile (\<lambda>x. x \<noteq> CHR 0x0A) s) \<le> length s"
      by (rule length_dropWhile_le)
    with Cons have "length rest < length s" by simp
    then have "findall_h2 True rest = concat (map h2_of_line (split_on (CHR 0x0A) rest))"
      by (rule less)
    moreover have "findall_h2 True s
        = h2_of_line (takeWhile (\<lambda>x. x \<noteq> CHR 0x0A) s) @ findall_h2 True rest"
      using findall_h2_True [of s] by (simp only: Cons list.case)
    moreover have "split_on (CHR 0x0A) s
        = takeWhile (\<lambda>x. x \<noteq> CHR 0x0A) s # split_on (CHR 0x0A) rest"
      using split_on_unfold [of "CHR 0x0A" s] by (simp only: Cons list.case)
    ultimately show ?thesis by simp
  qed
qed

lemma concat_h2_of_line:
  "concat (map h2_of_line ls) = map (drop 3) (filter (\<lambda>l. prefix ''## '' l \<and> 3 < length l) ls)"
  by (induction ls) (simp_all add: h2_of_line_def)

lemma findall_h2_second_level_headings:
  "findall_h2 True body = second_level_headings body"
  by (simp add: findall_h2_lines concat_h2_of_line second_level_headings_def)

text \<open>Every entry of the table is one line of it.\<close>

lemma split_on_append_sep:
  "c \<notin> set l \<Longrightarrow> split_on c (l @ c # rest) = l # split_on c rest"
  by (induction l) auto

lemma split_on_lines:
  "\<forall>l \<in> set ls. c \<notin> set l \<Longrightarrow> split_on c (concat (map (\<lambda>l. l @ [c]) ls)) = ls @ [[]]"
  by (induction ls) (simp_all add: split_on_append_sep)

lemma lower_char_newline: "lower_char c = CHR 0x0A \<longleftrightarrow> c = CHR 0x0A"
proof
  assume a: "lower_char c = CHR 0x0A"
  define n where "n = (of_char c :: nat)"
  have eq: "lower_char c =
      (if (0x41 \<le> n \<and> n \<le> 0x5A) \<or> (0xC0 \<le> n \<and> n \<le> 0xDE \<and> n \<noteq> 0xD7)
       then char_of (n + 0x20) else c)"
    unfolding lower_char_def Let_def n_def ..
  show "c = CHR 0x0A"
  proof (cases "(0x41 \<le> n \<and> n \<le> 0x5A) \<or> (0xC0 \<le> n \<and> n \<le> 0xDE \<and> n \<noteq> 0xD7)")
    case True
    with a eq have "char_of (n + 0x20) = CHR 0x0A"
      by (simp only: if_True)
    then have "(of_char (char_of (n + 0x20)) :: nat) = of_char (CHR 0x0A)"
      by (rule arg_cong)
    then have "(n + 0x20) mod 256 = 10"
      by simp
    moreover from True have "n + 0x20 < 256" by linarith
    ultimately have "n + 0x20 = 10" by simp
    then show ?thesis by simp
  next
    case False
    with a eq show ?thesis
      by (simp only: if_False)
  qed
next
  assume c: "c = CHR 0x0A"
  have "(of_char (CHR 0x0A) :: nat) = 10" by simp
  then show "lower_char c = CHR 0x0A"
    unfolding c lower_char_def Let_def by simp
qed

lemma lower_no_newline: "CHR 0x0A \<notin> set s \<Longrightarrow> CHR 0x0A \<notin> set (lower s)"
proof
  assume "CHR 0x0A \<notin> set s" and "CHR 0x0A \<in> set (lower s)"
  then obtain c where "c \<in> set s" "lower_char c = CHR 0x0A"
    by (auto simp: lower_def)
  with \<open>CHR 0x0A \<notin> set s\<close> show False
    by (simp add: lower_char_newline)
qed

lemma strip_subset: "set (strip s) \<subseteq> set s"
  by (auto simp: strip_def dest!: set_dropWhileD)

lemma anchor_no_newline:
  assumes "CHR 0x0A \<notin> set header"
  shows "CHR 0x0A \<notin> set (anchor header)"
proof -
  let ?kept = "filter (\<lambda>c. is_word_char c \<or> isspace c \<or> c = CHR ''-'') header"
  from assms have "CHR 0x0A \<notin> set ?kept" by simp
  with strip_subset [of ?kept] have "CHR 0x0A \<notin> set (strip ?kept)" by blast
  then have "CHR 0x0A \<notin> set (lower (strip ?kept))" by (rule lower_no_newline)
  then show ?thesis
    by (auto simp: anchor_def split: if_splits)
qed

lemma toc_line_no_newline:
  "CHR 0x0A \<notin> set header \<Longrightarrow> CHR 0x0A \<notin> set (toc_line header)"
  by (simp add: toc_line_def anchor_no_newline)

lemma split_on_no_sep: "l \<in> set (split_on c s) \<Longrightarrow> c \<notin> set l"
  by (induction s arbitrary: l) (auto split: if_splits list.splits)

lemma in_map_filterD: "h \<in> set (map f (filter P ls)) \<Longrightarrow> \<exists>l \<in> set ls. h = f l"
  by (induction ls) (auto split: if_splits)

lemma second_level_headings_no_newline:
  assumes "h \<in> set (second_level_headings body)"
  shows "CHR 0x0A \<notin> set h"
proof -
  from assms obtain l where l: "l \<in> set (split_on (CHR 0x0A) body)" and h: "h = drop 3 l"
    unfolding second_level_headings_def by (blast dest: in_map_filterD)
  from l have "CHR 0x0A \<notin> set l" by (rule split_on_no_sep)
  moreover have "set (drop 3 l) \<subseteq> set l" by (rule set_drop_subset)
  ultimately show ?thesis using h by blast
qed

lemma join_nl_lines:
  "join nl (x # xs) @ nl = concat (map (\<lambda>l. l @ nl) (x # xs))"
  by (induction xs arbitrary: x) simp_all

lemma toc_split_lines:
  assumes "CHR 0x0A \<notin> set h0" "\<forall>l \<in> set ls. CHR 0x0A \<notin> set l"
  shows "split_on (CHR 0x0A) (join nl ([h0 @ nl] @ ls) @ nl) = h0 # [] # ls @ [[]]"
proof -
  have "join nl ([h0 @ nl] @ ls) @ nl = concat (map (\<lambda>l. l @ nl) ((h0 @ nl) # ls))"
    by (simp only: append_Cons append_Nil join_nl_lines)
  also have "\<dots> = concat (map (\<lambda>l. l @ [CHR 0x0A]) (h0 # [] # ls))"
    by (simp add: nl_def)
  finally have eq: "join nl ([h0 @ nl] @ ls) @ nl
      = concat (map (\<lambda>l. l @ [CHR 0x0A]) (h0 # [] # ls))" .
  have "\<forall>l \<in> set (h0 # [] # ls). CHR 0x0A \<notin> set l"
    using assms by simp
  then have "split_on (CHR 0x0A) (concat (map (\<lambda>l. l @ [CHR 0x0A]) (h0 # [] # ls)))
      = (h0 # [] # ls) @ [[]]"
    by (rule split_on_lines)
  with eq show ?thesis by simp
qed

lemma toc_line_prefix: "prefix ''- ['' (toc_line h)"
  by (simp add: toc_line_def)

lemma filter_toc_lines: "filter (prefix ''- ['') (map toc_line hs) = map toc_line hs"
  by (induction hs) (simp_all only: list.map filter.simps toc_line_prefix if_True)

lemma toc_entries_lines:
  assumes "\<forall>h \<in> set hs. CHR 0x0A \<notin> set h"
  shows "toc_entries (if hs = [] then [] else join nl ([''## Table of Contents'' @ nl] @ map toc_line hs) @ nl)
           = map toc_line hs"
proof (cases "hs = []")
  case True
  then show ?thesis by (simp add: toc_entries_def)
next
  case False
  have "CHR 0x0A \<notin> set ''## Table of Contents''" by simp
  moreover have "\<forall>l \<in> set (map toc_line hs). CHR 0x0A \<notin> set l"
    using assms by (simp add: toc_line_no_newline)
  ultimately have "split_on (CHR 0x0A) (join nl ([''## Table of Contents'' @ nl] @ map toc_line hs) @ nl)
      = ''## Table of Contents'' # [] # map toc_line hs @ [[]]"
    by (rule toc_split_lines)
  then have "toc_entries (join nl ([''## Table of Contents'' @ nl] @ map toc_line hs) @ nl)
      = filter (prefix ''- ['') (''## Table of Contents'' # [] # map toc_line hs @ [[]])"
    by (simp only: toc_entries_def)
  also have "\<dots> = filter (prefix ''- ['') (map toc_line hs)"
    by simp
  finally show ?thesis
    using False by (simp only: filter_toc_lines if_False)
qed

text \<open>
  Claim C3, as it stands, fails: when the document has links, the table opens with an
  entry \<^verbatim>\<open>Useful Links\<close> that is no heading of the body. Here the body has one
  second-level heading and the table two entries.
\<close>

theorem toc_useful_links_counterexample:
  "second_level_headings ''## A'' = [''A''] \<and>
   toc_entries (generate_toc_from_markdown ''## A'' True)
     = [''- [Useful Links](#useful-links)'', ''- [A](#a)'']"
  by code_simp

text \<open>
  Claim C3, amended. The entries of the table of contents are, in order, one for
  \<^verbatim>\<open>Useful Links\<close> if the document has links, and then one for every second-level
  heading of the body (a line that begins with \<^verbatim>\<open>## \<close> and carries a text), in the
  order of the body; the table has no other entries. Without links the entries
  correspond one-to-one, in order, with the headings.
\<close>

theorem toc_entries_correspond:
  "toc_entries (generate_toc_from_markdown body has_useful_links)
     = map toc_line ((if has_useful_links then [''Useful Links''] else []) @ second_level_headings body)
   \<and> toc_entries (generate_toc_from_markdown body False) = map toc_line (second_level_headings body)
   \<and> length (toc_entries (generate_toc_from_markdown body False))
        = length (second_level_headings body)"
proof -
  have entries: "toc_entries (generate_toc_from_markdown body b)
      = map toc_line ((if b then [''Useful Links''] else []) @ second_level_headings body)" for b
  proof -
    let ?hs = "(if b then [''Useful Links''] else []) @ second_level_headings body"
    have "\<forall>h \<in> set ?hs. CHR 0x0A \<notin> set h"
      by (auto simp: second_level_headings_no_newline)
    then have "toc_entries (if ?hs = [] then []
        else join nl ([''## Table of Contents'' @ nl] @ map toc_line ?hs) @ nl) = map toc_line ?hs"
      by (rule toc_entries_lines)
    moreover have "generate_toc_from_markdown body b
        = (if ?hs = [] then [] else join nl ([''## Table of Contents'' @ nl] @ map toc_line ?hs) @ nl)"
      by (simp add: generate_toc_from_markdown_def findall_h2_second_level_headings Let_def)
    ultimately show ?thesis by simp
  qed
  from entries [of has_useful_links] entries [of False] show ?thesis by simp
qed

subsection \<open>The notebook processor: the two variants\<close>

lemma bindE_Inr_iff: "bindE m f = Inr y \<longleftrightarrow> (\<exists>x. m = Inr x \<and> f x = Inr y)"
  by (cases m) (simp_all add: bindE_def)

lemma bindE_Inr [simp]: "bindE (Inr x) f = f x"
  by (simp add: bindE_def)

lemma bindE_Inl [simp]: "bindE (Inl e) f = Inl e"
  by (simp add: bindE_def)

lemma py_setitem_Inr_iff:
  "py_setitem j k v = Inr j' \<longleftrightarrow> (\<exists>kvs. j = JObj kvs \<and> j' = JObj (AList.update k v kvs))"
  by (cases j) auto

lemma py_getitem_Inr_iff:
  "py_getitem j k = Inr v \<longleftrightarrow> (\<exists>kvs. j = JObj kvs \<and> map_of kvs k = Some v)"
  by (cases j) (auto split: option.splits)

lemma py_insert_Inr_iff:
  "py_insert j pos x = Inr j' \<longleftrightarrow> (\<exists>xs. j = JArr xs \<and> j' = JArr (insert_at pos x xs))"
  by (cases j) auto

text \<open>The loop over the exercise notebook replaces exactly the solution-tagged cells.\<close>

lemma replace_solution_cells_map:
  "replace_solution_cells cells = Inr cells' \<Longrightarrow> cells' = map blank cells"
proof (induction cells arbitrary: cells')
  case Nil
  then show ?case by simp
next
  case (Cons cell cells)
  from Cons.prems obtain b rest where b: "is_solution_cell cell = Inr b"
    and rest: "replace_solution_cells cells = Inr rest"
    and eq: "cells' = (if b then empty_cell else cell) # rest"
    by (auto simp: bindE_Inr_iff)
  from b have "blank cell = (if b then empty_cell else cell)"
    by (simp add: blank_def solution_tagged_def)
  with Cons.IH [OF rest] eq show ?case by simp
qed

text \<open>The cells that the script makes itself carry no tags.\<close>

lemma not_tagged_empty_metadata:
  "map_of kvs ''metadata'' = Some (JObj []) \<Longrightarrow> \<not> solution_tagged (JObj kvs)"
  by (simp add: solution_tagged_def is_solution_cell_def)

lemma blank_slide_link_cell: "blank (slide_link_cell e s) = slide_link_cell e s"
  by (simp add: blank_def slide_link_cell_def not_tagged_empty_metadata)

lemma create_setup_cell_blank:
  "create_setup_cell e z c i l = Inr cell \<Longrightarrow> blank cell = cell"
  by (auto simp: create_setup_cell_def bindE_Inr_iff blank_def Let_def not_tagged_empty_metadata
      split: option.splits)

lemma map_blank_insert_at:
  "blank x = x \<Longrightarrow> map blank (insert_at pos x xs) = insert_at pos x (map blank xs)"
  by (simp add: insert_at_def take_map drop_map)

lemma set_insert_at: "set (insert_at pos x xs) = insert x (set xs)"
proof -
  have "set (take pos xs) \<union> set (drop pos xs) = set xs"
    by (metis append_take_drop_id set_append)
  then show ?thesis by (auto simp: insert_at_def)
qed

lemma nb_cells_update:
  "nb_cells (JObj (AList.update ''cells'' (JArr cs) kvs)) = cs"
  by (simp add: nb_cells_def update_conv')

lemma nb_cells_JObj:
  "map_of kvs ''cells'' = Some (JArr cs) \<Longrightarrow> nb_cells (JObj kvs) = cs"
  by (simp add: nb_cells_def)

lemma exercise_of_cells: "nb_cells (exercise_of c) = map blank (nb_cells c)"
  by (auto simp: exercise_of_def nb_cells_def update_conv' split: json.splits option.splits)

lemma exercise_of_other:
  "k \<noteq> ''cells'' \<Longrightarrow> py_getitem (exercise_of c) k = py_getitem c k"
  by (auto simp: exercise_of_def update_conv' split: json.splits option.splits)

text \<open>The stages of \<^const>\<open>process_notebook\<close>, one by one.\<close>

lemma set_kernelspec_Inr:
  assumes "set_kernelspec nb = Inr c"
  obtains kvs mk kk where "nb = JObj kvs" "c = JObj (AList.update ''metadata'' (JObj mk) kvs)"
    "map_of mk ''kernelspec'' = Some (JObj kk)"
    "map_of kk ''name'' = Some (JStr ''python3'')"
    "map_of kk ''display_name'' = Some (JStr ''Python 3'')"
    "map_of kk ''language'' = Some (JStr ''python'')"
  using assms
  by (auto simp: set_kernelspec_def bindE_Inr_iff py_setitem_Inr_iff py_getitem_Inr_iff
      update_conv' map_of_eq_None_iff split: if_splits json.splits)

lemma exercise_of_replaced:
  assumes "py_getitem c ''cells'' = Inr cells" "py_iter cells = Inr elems"
    "replace_solution_cells elems = Inr replaced"
    "(case cells of JArr _ \<Rightarrow> py_setitem c ''cells'' (JArr replaced) | _ \<Rightarrow> Inr c) = Inr x"
  shows "x = exercise_of c"
proof -
  from assms(1) obtain kvs where c: "c = JObj kvs" and cells: "map_of kvs ''cells'' = Some cells"
    by (auto simp: py_getitem_Inr_iff)
  show ?thesis
  proof (cases "\<exists>cs. cells = JArr cs")
    case True
    then obtain cs where cs: "cells = JArr cs" ..
    with assms(2) have "elems = cs" by simp
    with assms(3) have "replaced = map blank cs" by (simp add: replace_solution_cells_map)
    with assms(4) c cells cs show ?thesis
      by (simp add: exercise_of_def)
  next
    case False
    with assms(4) have "x = c" by (cases cells) simp_all
    moreover from False c cells have "exercise_of c = c"
      by (cases cells) (simp_all add: exercise_of_def)
    ultimately show ?thesis by simp
  qed
qed

lemma exercise_of_insert:
  assumes "py_getitem c ''cells'' = Inr cells" "py_insert cells pos cell = Inr cells'"
    "py_setitem c ''cells'' cells' = Inr c'"
    "py_getitem (exercise_of c) ''cells'' = Inr xcells" "py_insert xcells pos cell = Inr xcells'"
    "py_setitem (exercise_of c) ''cells'' xcells' = Inr x'"
    "blank cell = cell"
  obtains kvs cs where "c = JObj kvs" "map_of kvs ''cells'' = Some (JArr cs)"
    "c' = JObj (AList.update ''cells'' (JArr (insert_at pos cell cs)) kvs)"
    "x' = exercise_of c'"
proof -
  from assms(1) obtain kvs where c: "c = JObj kvs" and cells: "map_of kvs ''cells'' = Some cells"
    by (auto simp: py_getitem_Inr_iff)
  from assms(2) obtain cs where cs: "cells = JArr cs" and cells': "cells' = JArr (insert_at pos cell cs)"
    by (auto simp: py_insert_Inr_iff)
  from assms(3) c cells' have c': "c' = JObj (AList.update ''cells'' (JArr (insert_at pos cell cs)) kvs)"
    by simp
  have x: "exercise_of c = JObj (AList.update ''cells'' (JArr (map blank cs)) kvs)"
    using c cells cs by (simp add: exercise_of_def)
  with assms(4) have "xcells = JArr (map blank cs)"
    by (simp add: update_conv')
  with assms(5) have "xcells' = JArr (insert_at pos cell (map blank cs))" by auto
  with assms(6) x have "x' = JObj (AList.update ''cells'' (JArr (insert_at pos cell (map blank cs))) kvs)"
    by auto
  with c' assms(7) have "x' = exercise_of c'"
    by (simp add: exercise_of_def update_conv' map_blank_insert_at)
  with c cells cs c' show thesis by (intro that) auto
qed

lemma add_setup_cell_Inr:
  assumes "add_setup_cell e bn dir cfg md c (exercise_of c) = Inr (c', x', z)"
  obtains kvs cs pos cell where "c = JObj kvs" "map_of kvs ''cells'' = Some (JArr cs)"
    "c' = JObj (AList.update ''cells'' (JArr (insert_at pos cell cs)) kvs)"
    "x' = exercise_of c'"
proof -
  from assms obtain setup_cell cells pos cells' xcells xcells' i l where
    f: "create_setup_cell e (bn @ ''-data.zip'') cfg i l = Inr setup_cell"
    and g: "py_getitem c ''cells'' = Inr cells" "py_insert cells pos setup_cell = Inr cells'"
    "py_setitem c ''cells'' cells' = Inr c'"
    "py_getitem (exercise_of c) ''cells'' = Inr xcells" "py_insert xcells pos setup_cell = Inr xcells'"
    "py_setitem (exercise_of c) ''cells'' xcells' = Inr x'"
    unfolding add_setup_cell_def Let_def bindE_Inr_iff by auto
  show thesis
    by (rule exercise_of_insert [OF g create_setup_cell_blank [OF f]]) (rule that)
qed

lemma add_slide_link_Inr:
  assumes "add_slide_link e dir sf c (exercise_of c) = Inr (c', x')"
  obtains kvs cs where "c = JObj kvs" "map_of kvs ''cells'' = Some (JArr cs)"
    "c' = JObj (AList.update ''cells'' (JArr (insert_at 0 (slide_link_cell e sf) cs)) kvs)"
    "x' = exercise_of c'"
proof -
  from assms obtain cells cells' xcells xcells' where
    g: "py_getitem c ''cells'' = Inr cells" "py_insert cells 0 (slide_link_cell e sf) = Inr cells'"
    "py_setitem c ''cells'' cells' = Inr c'"
    "py_getitem (exercise_of c) ''cells'' = Inr xcells"
    "py_insert xcells 0 (slide_link_cell e sf) = Inr xcells'"
    "py_setitem (exercise_of c) ''cells'' xcells' = Inr x'"
    unfolding add_slide_link_def bindE_Inr_iff by (cases sf) (auto split: if_splits)
  show thesis
    by (rule exercise_of_insert [OF g blank_slide_link_cell]) (rule that)
qed

lemma process_notebook_SomeE:
  assumes "process_notebook e nb bn dir cfg ss = Inr (Some r)"
  obtains md0 sl nb1 md c0 df c1 x1 z sf where
    "get_notebook_metadata nb = Inr md0" "truthy md0"
    "(case ss of Some s \<Rightarrow> if \<not> truthy sl \<and> s \<noteq> [] then set_workshop_slides nb s else Inr nb
      | None \<Rightarrow> Inr nb) = Inr nb1"
    "get_notebook_metadata nb1 = Inr md"
    "set_kernelspec nb1 = Inr c0"
    "(if truthy df then add_setup_cell e bn dir cfg md c0 (exercise_of c0)
      else Inr (c0, exercise_of c0, None)) = Inr (c1, x1, z)"
    "py_get md ''slides'' JNull = Inr sf"
    "(if truthy sf then add_slide_link e dir sf c1 x1 else Inr (c1, x1))
        = Inr (complete_nb r, exercise_nb r)"
    "data_zip r = z"
proof -
  from assms obtain md0 where md0: "get_notebook_metadata nb = Inr md0" and t: "truthy md0"
    by (auto simp: process_notebook_def bindE_Inr_iff split: if_splits)
  with assms obtain sl nb1 md c0 cells elems replaced x0 df c1 x1 z sf where
    nb1: "(case ss of Some s \<Rightarrow> if \<not> truthy sl \<and> s \<noteq> [] then set_workshop_slides nb s else Inr nb
           | None \<Rightarrow> Inr nb) = Inr nb1"
    and md: "get_notebook_metadata nb1 = Inr md"
    and c0: "set_kernelspec nb1 = Inr c0"
    and x0: "py_getitem c0 ''cells'' = Inr cells" "py_iter cells = Inr elems"
      "replace_solution_cells elems = Inr replaced"
      "(case cells of JArr _ \<Rightarrow> py_setitem c0 ''cells'' (JArr replaced) | _ \<Rightarrow> Inr c0) = Inr x0"
    and c1: "(if truthy df then add_setup_cell e bn dir cfg md c0 x0
              else Inr (c0, x0, None)) = Inr (c1, x1, z)"
    and sf: "py_get md ''slides'' JNull = Inr sf"
    and rest: "(if truthy sf then add_slide_link e dir sf c1 x1 else Inr (c1, x1))
        = Inr (complete_nb r, exercise_nb r)"
    and z: "data_zip r = z"
    by (auto simp: process_notebook_def bindE_Inr_iff split: prod.splits)
  have "x0 = exercise_of c0"
    using x0 by (rule exercise_of_replaced)
  with md0 t nb1 md c0 c1 sf rest z show thesis
    by (intro that [of md0 sl nb1 md c0 df c1 x1 z sf]) (auto split: if_splits)
qed

text \<open>What the stages leave unchanged.\<close>

lemma set_workshop_slides_other:
  "set_workshop_slides nb s = Inr nb1 \<Longrightarrow> k \<noteq> ''metadata'' \<Longrightarrow> py_getitem nb1 k = py_getitem nb k"
  by (auto simp: set_workshop_slides_def bindE_Inr_iff py_setitem_Inr_iff py_getitem_Inr_iff update_conv')

lemma set_workshop_slides_cells:
  "set_workshop_slides nb s = Inr nb1 \<Longrightarrow> nb_cells nb1 = nb_cells nb"
  by (simp add: nb_cells_def set_workshop_slides_other)

lemma set_kernelspec_cells:
  "set_kernelspec nb1 = Inr c0 \<Longrightarrow> nb_cells c0 = nb_cells nb1"
  by (erule set_kernelspec_Inr) (simp add: nb_cells_def update_conv')

lemma add_setup_cell_cells:
  "add_setup_cell e bn dir cfg md c (exercise_of c) = Inr (c', x', z)
     \<Longrightarrow> set (nb_cells c) \<subseteq> set (nb_cells c')"
  by (erule add_setup_cell_Inr) (auto simp: nb_cells_update nb_cells_JObj set_insert_at)

lemma add_slide_link_cells:
  "add_slide_link e dir sf c (exercise_of c) = Inr (c', x')
     \<Longrightarrow> set (nb_cells c) \<subseteq> set (nb_cells c')"
  by (erule add_slide_link_Inr) (auto simp: nb_cells_update nb_cells_JObj set_insert_at)

lemma set_kernelspec_python3:
  "set_kernelspec nb1 = Inr c0 \<Longrightarrow> has_python3_kernelspec c0"
  by (erule set_kernelspec_Inr) (simp add: has_python3_kernelspec_def update_conv')

lemma has_python3_kernelspec_update_cells:
  "has_python3_kernelspec (JObj (AList.update ''cells'' v kvs)) = has_python3_kernelspec (JObj kvs)"
  by (simp add: has_python3_kernelspec_def update_conv')

lemma has_python3_kernelspec_exercise_of:
  "has_python3_kernelspec (exercise_of c) = has_python3_kernelspec c"
  by (auto simp: exercise_of_def has_python3_kernelspec_update_cells split: json.splits option.splits)

lemma add_setup_cell_python3:
  "add_setup_cell e bn dir cfg md c (exercise_of c) = Inr (c', x', z)
     \<Longrightarrow> has_python3_kernelspec c' = has_python3_kernelspec c"
  by (erule add_setup_cell_Inr) (simp add: has_python3_kernelspec_update_cells)

lemma add_slide_link_python3:
  "add_slide_link e dir sf c (exercise_of c) = Inr (c', x')
     \<Longrightarrow> has_python3_kernelspec c' = has_python3_kernelspec c"
  by (erule add_slide_link_Inr) (simp add: has_python3_kernelspec_update_cells)

text \<open>The three facts about a processed notebook that the claims rest on.\<close>

lemma process_notebook_exercise_of:
  assumes "process_notebook e nb bn dir cfg ss = Inr (Some r)"
  shows "exercise_nb r = exercise_of (complete_nb r)"
proof -
  from assms obtain md c0 df c1 x1 z sf where
    stp: "(if truthy df then add_setup_cell e bn dir cfg md c0 (exercise_of c0)
      else Inr (c0, exercise_of c0, None)) = Inr (c1, x1, z)"
    and slide: "(if truthy sf then add_slide_link e dir sf c1 x1 else Inr (c1, x1))
        = Inr (complete_nb r, exercise_nb r)"
    by (rule process_notebook_SomeE)
  have x1: "x1 = exercise_of c1"
    using stp by (auto split: if_splits elim: add_setup_cell_Inr)
  show ?thesis
    using slide x1 by (auto split: if_splits elim: add_slide_link_Inr)
qed

lemma process_notebook_cells_kept:
  assumes "process_notebook e nb bn dir cfg ss = Inr (Some r)"
  shows "set (nb_cells nb) \<subseteq> set (nb_cells (complete_nb r))"
proof -
  from assms obtain sl nb1 md c0 df c1 x1 z sf where
    nb1: "(case ss of Some s \<Rightarrow> if \<not> truthy sl \<and> s \<noteq> [] then set_workshop_slides nb s else Inr nb
      | None \<Rightarrow> Inr nb) = Inr nb1"
    and c0: "set_kernelspec nb1 = Inr c0"
    and stp: "(if truthy df then add_setup_cell e bn dir cfg md c0 (exercise_of c0)
      else Inr (c0, exercise_of c0, None)) = Inr (c1, x1, z)"
    and slide: "(if truthy sf then add_slide_link e dir sf c1 x1 else Inr (c1, x1))
        = Inr (complete_nb r, exercise_nb r)"
    by (rule process_notebook_SomeE)
  from nb1 have "nb_cells nb1 = nb_cells nb"
    by (auto split: option.splits if_splits dest: set_workshop_slides_cells)
  with c0 have 0: "nb_cells c0 = nb_cells nb"
    by (simp add: set_kernelspec_cells)
  have x1: "x1 = exercise_of c1"
    using stp by (auto split: if_splits elim: add_setup_cell_Inr)
  have 1: "set (nb_cells c0) \<subseteq> set (nb_cells c1)"
    using stp by (auto split: if_splits dest: add_setup_cell_cells)
  have 2: "set (nb_cells c1) \<subseteq> set (nb_cells (complete_nb r))"
    using slide x1 by (auto split: if_splits dest: add_slide_link_cells)
  from 0 1 2 show ?thesis by simp
qed

lemma process_notebook_python3:
  assumes "process_notebook e nb bn dir cfg ss = Inr (Some r)"
  shows "has_python3_kernelspec (complete_nb r)"
proof -
  from assms obtain nb1 md c0 df c1 x1 z sf where
    c0: "set_kernelspec nb1 = Inr c0"
    and stp: "(if truthy df then add_setup_cell e bn dir cfg md c0 (exercise_of c0)
      else Inr (c0, exercise_of c0, None)) = Inr (c1, x1, z)"
    and slide: "(if truthy sf then add_slide_link e dir sf c1 x1 else Inr (c1, x1))
        = Inr (complete_nb r, exercise_nb r)"
    by (rule process_notebook_SomeE)
  from c0 have 0: "has_python3_kernelspec c0"
    by (rule set_kernelspec_python3)
  have x1: "x1 = exercise_of c1"
    using stp by (auto split: if_splits elim: add_setup_cell_Inr)
  have 1: "has_python3_kernelspec c1"
    using stp 0 by (auto split: if_splits dest: add_setup_cell_python3)
  show ?thesis
    using slide x1 1 by (auto split: if_splits dest: add_slide_link_python3)
qed

lemma solution_tagged_not_blank: "solution_tagged cell \<Longrightarrow> cell \<notin> set (map blank cs)"
proof
  assume t: "solution_tagged cell" and "cell \<in> set (map blank cs)"
  then obtain c where "cell = blank c" by auto
  with t show False
    by (cases "solution_tagged c") (simp_all add: blank_def empty_cell_def not_tagged_empty_metadata)
qed

lemma example_run:
  "process_notebook example_env example_notebook ''intro'' (Path False [''intro'']) example_config
     (Some ''intro/slides.pdf'') = Inr (Some example_result)"
  by code_simp

text \<open>
  Claim C1. A solution-tagged cell of the source notebook is a cell of the answers
  variant and no cell of the exercise variant; the two variants have the same number
  of cells, and wherever the answers variant has the cell, the exercise variant has the
  empty cell (whose source is empty).
\<close>

theorem solution_cell_cleared_in_exercise_kept_in_answers:
  assumes "process_notebook e notebook base_name notebook_dir config section_slides = Inr (Some r)"
    and "cell \<in> set (nb_cells notebook)"
    and "solution_tagged cell"
  shows "cell \<in> set (nb_cells (complete_nb r)) \<and>
         cell \<notin> set (nb_cells (exercise_nb r)) \<and>
         length (nb_cells (exercise_nb r)) = length (nb_cells (complete_nb r)) \<and>
         (\<forall>i < length (nb_cells (complete_nb r)).
            nb_cells (complete_nb r) ! i = cell \<longrightarrow> nb_cells (exercise_nb r) ! i = empty_cell) \<and>
         py_getitem empty_cell ''source'' = Inr (JArr [])"
proof -
  have x: "nb_cells (exercise_nb r) = map blank (nb_cells (complete_nb r))"
    using process_notebook_exercise_of [OF assms(1)] by (simp add: exercise_of_cells)
  have "cell \<in> set (nb_cells (complete_nb r))"
    using process_notebook_cells_kept [OF assms(1)] assms(2) by blast
  moreover have "cell \<notin> set (nb_cells (exercise_nb r))"
    unfolding x using assms(3) by (rule solution_tagged_not_blank)
  moreover have "nb_cells (exercise_nb r) ! i = empty_cell"
    if "i < length (nb_cells (complete_nb r))" "nb_cells (complete_nb r) ! i = cell" for i
    using that assms(3) by (simp add: x blank_def)
  moreover have "py_getitem empty_cell ''source'' = Inr (JArr [])"
    by (simp add: empty_cell_def)
  ultimately show ?thesis by (simp add: x)
qed

text \<open>The theorem at the example notebook and its solution-tagged code cell.\<close>

theorem solution_cell_cleared_in_exercise_kept_in_answers_witness:
  "process_notebook example_env example_notebook ''intro'' (Path False [''intro'']) example_config
      (Some ''intro/slides.pdf'') = Inr (Some example_result) \<and>
   example_solution_code \<in> set (nb_cells example_notebook) \<and>
   solution_tagged example_solution_code \<and>
   example_solution_code \<in> set (nb_cells (complete_nb example_result)) \<and>
   example_solution_code \<notin> set (nb_cells (exercise_nb example_result)) \<and>
   nb_cells (complete_nb example_result) ! 2 = example_solution_code \<and>
   nb_cells (exercise_nb example_result) ! 2 = empty_cell"
proof -
  have in_nb: "example_solution_code \<in> set (nb_cells example_notebook)"
    by code_simp
  have tagged: "solution_tagged example_solution_code"
    by code_simp
  have at2: "nb_cells (complete_nb example_result) ! 2 = example_solution_code"
    by code_simp
  have len: "2 < length (nb_cells (complete_nb example_result))"
    by code_simp
  from solution_cell_cleared_in_exercise_kept_in_answers [OF example_run in_nb tagged] at2 len
  show ?thesis
    using example_run in_nb tagged by blast
qed

text \<open>
  Claim C2, as it stands, fails: a solution-tagged cell does not differ in its content
  alone. The markdown cell of the example that is tagged as a solution is a code cell
  without tags in the exercise variant.
\<close>

theorem solution_cell_type_and_metadata_counterexample:
  "process_notebook example_env example_notebook ''intro'' (Path False [''intro'']) example_config
      (Some ''intro/slides.pdf'') = Inr (Some example_result) \<and>
   solution_tagged (nb_cells (complete_nb example_result) ! 3) \<and>
   py_getitem (nb_cells (complete_nb example_result) ! 3) ''cell_type'' = Inr (JStr ''markdown'') \<and>
   py_getitem (nb_cells (exercise_nb example_result) ! 3) ''cell_type'' = Inr (JStr ''code'') \<and>
   py_getitem (nb_cells (complete_nb example_result) ! 3) ''metadata''
     = Inr (JObj [(''tags'', JArr [JStr ''hint'', JStr ''solution''])]) \<and>
   py_getitem (nb_cells (exercise_nb example_result) ! 3) ''metadata'' = Inr (JObj [])"
proof -
  have "solution_tagged (nb_cells (complete_nb example_result) ! 3)"
    by code_simp
  moreover have "py_getitem (nb_cells (complete_nb example_result) ! 3) ''cell_type'' = Inr (JStr ''markdown'')"
    by code_simp
  moreover have "py_getitem (nb_cells (exercise_nb example_result) ! 3) ''cell_type'' = Inr (JStr ''code'')"
    by code_simp
  moreover have "py_getitem (nb_cells (complete_nb example_result) ! 3) ''metadata''
     = Inr (JObj [(''tags'', JArr [JStr ''hint'', JStr ''solution''])])"
    by code_simp
  moreover have "py_getitem (nb_cells (exercise_nb example_result) ! 3) ''metadata'' = Inr (JObj [])"
    by code_simp
  ultimately show ?thesis using example_run by simp
qed

text \<open>
  Claim C2, amended. The exercise variant is the answers variant with every
  solution-tagged cell replaced by the empty code cell, and nothing else changed: the
  two have the same number of cells, every cell that is not solution-tagged is the same
  cell in both, every solution-tagged cell of the answers variant is the empty cell in
  the exercise variant, and everything outside of the cell list is equal.
\<close>

theorem exercise_is_answers_with_solutions_replaced:
  assumes "process_notebook e notebook base_name notebook_dir config section_slides = Inr (Some r)"
  shows "exercise_nb r = exercise_of (complete_nb r) \<and>
         length (nb_cells (exercise_nb r)) = length (nb_cells (complete_nb r)) \<and>
         (\<forall>i < length (nb_cells (complete_nb r)).
            nb_cells (exercise_nb r) ! i =
              (if solution_tagged (nb_cells (complete_nb r) ! i) then empty_cell
               else nb_cells (complete_nb r) ! i)) \<and>
         (\<forall>k. k \<noteq> ''cells'' \<longrightarrow> py_getitem (exercise_nb r) k = py_getitem (complete_nb r) k)"
proof -
  have x: "exercise_nb r = exercise_of (complete_nb r)"
    using assms by (rule process_notebook_exercise_of)
  then show ?thesis
    by (simp add: exercise_of_cells exercise_of_other blank_def)
qed

theorem exercise_is_answers_with_solutions_replaced_witness:
  "process_notebook example_env example_notebook ''intro'' (Path False [''intro'']) example_config
      (Some ''intro/slides.pdf'') = Inr (Some example_result) \<and>
   exercise_nb example_result = exercise_of (complete_nb example_result) \<and>
   nb_cells (exercise_nb example_result) ! 1 = nb_cells (complete_nb example_result) ! 1 \<and>
   nb_cells (exercise_nb example_result) ! 3 = empty_cell \<and>
   py_getitem (exercise_nb example_result) ''metadata''
     = py_getitem (complete_nb example_result) ''metadata''"
proof -
  note th = exercise_is_answers_with_solutions_replaced [OF example_run]
  note cells = th [THEN conjunct2, THEN conjunct2, THEN conjunct1, rule_format]
  note other = th [THEN conjunct2, THEN conjunct2, THEN conjunct2, rule_format]
  have len: "1 < length (nb_cells (complete_nb example_result))"
    "3 < length (nb_cells (complete_nb example_result))"
    by code_simp+
  have t1: "\<not> solution_tagged (nb_cells (complete_nb example_result) ! 1)"
    by code_simp
  have t3: "solution_tagged (nb_cells (complete_nb example_result) ! 3)"
    by code_simp
  have "nb_cells (exercise_nb example_result) ! 1 = nb_cells (complete_nb example_result) ! 1"
    using cells [OF len(1)] t1 by (simp only: if_False)
  moreover have "nb_cells (exercise_nb example_result) ! 3 = empty_cell"
    using cells [OF len(2)] t3 by (simp only: if_True)
  moreover have "py_getitem (exercise_nb example_result) ''metadata''
     = py_getitem (complete_nb example_result) ''metadata''"
    by (rule other) simp
  ultimately show ?thesis using th [THEN conjunct1] example_run by (simp only: simp_thms)
qed

text \<open>
  Claim C10. Both variants that \<^verbatim>\<open>process_notebook\<close> writes carry the kernelspec
  \<^verbatim>\<open>python3\<close> / \<^verbatim>\<open>Python 3\<close> / \<^verbatim>\<open>python\<close>, whatever the source notebook declared.
\<close>

theorem both_variants_python3_kernelspec:
  assumes "process_notebook e notebook base_name notebook_dir config section_slides = Inr (Some r)"
  shows "has_python3_kernelspec (complete_nb r) \<and> has_python3_kernelspec (exercise_nb r)"
proof -
  have "has_python3_kernelspec (complete_nb r)"
    using assms by (rule process_notebook_python3)
  moreover have "exercise_nb r = exercise_of (complete_nb r)"
    using assms by (rule process_notebook_exercise_of)
  ultimately show ?thesis
    by (simp add: has_python3_kernelspec_exercise_of)
qed

text \<open>The example notebook declares an R kernel.\<close>

theorem both_variants_python3_kernelspec_witness:
  "lookup_path example_notebook [''metadata'', ''kernelspec'', ''name''] = Inr (JStr ''ir'') \<and>
   process_notebook example_env example_notebook ''intro'' (Path False [''intro'']) example_config
      (Some ''intro/slides.pdf'') = Inr (Some example_result) \<and>
   has_python3_kernelspec (complete_nb example_result) \<and>
   has_python3_kernelspec (exercise_nb example_result)"
proof -
  have "lookup_path example_notebook [''metadata'', ''kernelspec'', ''name''] = Inr (JStr ''ir'')"
    by code_simp
  with both_variants_python3_kernelspec [OF example_run] example_run show ?thesis
    by simp
qed

subsection \<open>The asset bundler\<close>

text \<open>A parsed path prints and parses back, so that equal strings are equal paths.\<close>

lemma split_on_single: "c \<notin> set l \<Longrightarrow> split_on c l = [l]"
  by (induction l) auto

lemma split_on_join:
  "\<forall>p \<in> set (x # xs). c \<notin> set p \<Longrightarrow> split_on c (join [c] (x # xs)) = x # xs"
proof (induction xs arbitrary: x)
  case Nil
  then show ?case by (simp add: split_on_single)
next
  case (Cons y ys)
  then have "split_on c (join [c] (y # ys)) = y # ys" by simp
  moreover from Cons.prems have "c \<notin> set x" by simp
  ultimately show ?case by (simp add: split_on_append_sep)
qed

lemma parse_path_parts:
  assumes "parse_path s = Path a parts"
  shows "list_all good_part parts"
proof -
  from assms have parts: "parts = filter (\<lambda>p. p \<noteq> [] \<and> p \<noteq> ''.'') (split_on (CHR ''/'') s)"
    by (simp add: parse_path_def)
  have "good_part p" if "p \<in> set parts" for p
  proof -
    from that parts have "p \<in> set (split_on (CHR ''/'') s)" and "p \<noteq> []" and "p \<noteq> ''.''"
      by simp_all
    then show ?thesis
      unfolding good_part_def using split_on_no_sep by blast
  qed
  then show ?thesis by (simp add: list_all_iff)
qed


lemma filter_good: "list_all good_part parts \<Longrightarrow> filter (\<lambda>p. p \<noteq> [] \<and> p \<noteq> ''.'') parts = parts"
  by (induction parts) (simp_all add: good_part_def)

lemma join_good_hd:
  assumes "good_part p"
  shows "\<exists>ch rest. ch \<noteq> CHR ''/'' \<and> join ''/'' (p # ps) = ch # rest"
proof -
  from assms obtain ch p' where p: "p = ch # p'" and ch: "ch \<noteq> CHR ''/''"
    by (cases p) (auto simp: good_part_def)
  show ?thesis
    unfolding p using ch by (cases ps) simp_all
qed

lemma parse_str_path:
  assumes "list_all good_part parts"
  shows "parse_path (str_path (Path a parts)) = Path a parts"
proof (cases parts)
  case Nil
  then show ?thesis by (cases a) (simp_all add: parse_path_def)
next
  case (Cons p ps)
  from assms have nosep: "\<forall>q \<in> set (p # ps). CHR ''/'' \<notin> set q"
    by (simp add: list_all_iff good_part_def Cons)
  have sp: "split_on (CHR ''/'') (join ''/'' (p # ps)) = p # ps"
    using nosep by (rule split_on_join)
  from assms Cons have "good_part p" by simp
  from join_good_hd [OF this, of ps]
  obtain ch rest where ch: "ch \<noteq> CHR ''/''" and hd: "join ''/'' (p # ps) = ch # rest"
    by (elim exE conjE)
  have flt: "filter (\<lambda>p. p \<noteq> [] \<and> p \<noteq> ''.'') (p # ps) = p # ps"
    using assms unfolding Cons by (rule filter_good)
  show ?thesis
  proof (cases a)
    case True
    have "split_on (CHR ''/'') (''/'' @ join ''/'' (p # ps)) = [] # (p # ps)"
      using sp by simp
    then show ?thesis
      using True flt unfolding Cons by (simp add: parse_path_def)
  next
    case False
    have "\<not> prefix ''/'' (join ''/'' (p # ps))"
      unfolding hd using ch by simp
    then show ?thesis
      using False flt sp unfolding Cons by (simp add: parse_path_def)
  qed
qed

lemma str_path_parse_inj:
  assumes "str_path (parse_path m) = str_path (parse_path m')"
  shows "parse_path m = parse_path m'"
proof -
  obtain a parts where p: "parse_path m = Path a parts" by (cases "parse_path m")
  obtain a' parts' where p': "parse_path m' = Path a' parts'" by (cases "parse_path m'")
  have 1: "parse_path (str_path (parse_path m)) = parse_path m"
    unfolding p using parse_path_parts [OF p] by (rule parse_str_path)
  have 2: "parse_path (str_path (parse_path m')) = parse_path m'"
    unfolding p' using parse_path_parts [OF p'] by (rule parse_str_path)
  from assms have "parse_path (str_path (parse_path m)) = parse_path (str_path (parse_path m'))"
    by (rule arg_cong)
  then show ?thesis
    by (simp only: 1 2)
qed


text \<open>What one match, one pattern and the whole loop do to the archive.\<close>

lemma add_match_printed: "printed (add_match base st m) = printed st"
  by (simp add: add_match_def Let_def)

lemma foldl_add_match_printed: "printed (foldl (add_match base) st ms) = printed st"
  by (induction ms arbitrary: st) (simp_all add: add_match_printed)

lemma add_match_written:
  "written (add_match base st m) =
     (if str_path (parse_path m) \<in> added_files st then written st
      else written st @ [(str_path (parse_path m), str_path (arcname_of base (parse_path m)))])"
  by (simp add: add_match_def Let_def)

lemma add_match_added:
  "added_files (add_match base st m) = insert (str_path (parse_path m)) (added_files st)"
  by (auto simp: add_match_def Let_def)

text \<open>
  The invariant of the loops: \<^verbatim>\<open>added_files\<close> holds the files written, no file is written
  twice, and every file is written under the path that \<^const>\<open>arcname_of\<close> gives it.
\<close>

lemma add_match_inv:
  assumes "added_files st = fst ` set (written st)" "distinct (map fst (written st))"
    "\<forall>(f, a) \<in> set (written st). \<exists>m. f = str_path (parse_path m) \<and> a = str_path (arcname_of base (parse_path m))"
  shows "added_files (add_match base st m) = fst ` set (written (add_match base st m)) \<and>
         distinct (map fst (written (add_match base st m))) \<and>
         (\<forall>(f, a) \<in> set (written (add_match base st m)).
            \<exists>m. f = str_path (parse_path m) \<and> a = str_path (arcname_of base (parse_path m)))"
  using assms by (auto simp: add_match_written add_match_added)

lemma foldl_add_match_inv:
  assumes "added_files st = fst ` set (written st)" "distinct (map fst (written st))"
    "\<forall>(f, a) \<in> set (written st). \<exists>m. f = str_path (parse_path m) \<and> a = str_path (arcname_of base (parse_path m))"
  shows "added_files (foldl (add_match base) st ms) = fst ` set (written (foldl (add_match base) st ms)) \<and>
         distinct (map fst (written (foldl (add_match base) st ms))) \<and>
         (\<forall>(f, a) \<in> set (written (foldl (add_match base) st ms)).
            \<exists>m. f = str_path (parse_path m) \<and> a = str_path (arcname_of base (parse_path m)))"
  using assms
proof (induction ms arbitrary: st)
  case Nil
  then show ?case by simp
next
  case (Cons m ms)
  from add_match_inv [OF Cons.prems, of m] show ?case
    by (simp only: foldl_Cons) (intro Cons.IH, simp_all)
qed

lemma add_pattern_inv:
  assumes "added_files st = fst ` set (written st)" "distinct (map fst (written st))"
    "\<forall>(f, a) \<in> set (written st). \<exists>m. f = str_path (parse_path m) \<and> a = str_path (arcname_of base (parse_path m))"
  shows "added_files (add_pattern e base st pat) = fst ` set (written (add_pattern e base st pat)) \<and>
         distinct (map fst (written (add_pattern e base st pat))) \<and>
         (\<forall>(f, a) \<in> set (written (add_pattern e base st pat)).
            \<exists>m. f = str_path (parse_path m) \<and> a = str_path (arcname_of base (parse_path m)))"
  unfolding add_pattern_def Let_def
  by (rule foldl_add_match_inv) (use assms in \<open>simp_all split: if_splits\<close>)

lemma foldl_add_pattern_inv:
  assumes "added_files st = fst ` set (written st)" "distinct (map fst (written st))"
    "\<forall>(f, a) \<in> set (written st). \<exists>m. f = str_path (parse_path m) \<and> a = str_path (arcname_of base (parse_path m))"
  shows "added_files (foldl (add_pattern e base) st pats) = fst ` set (written (foldl (add_pattern e base) st pats)) \<and>
         distinct (map fst (written (foldl (add_pattern e base) st pats))) \<and>
         (\<forall>(f, a) \<in> set (written (foldl (add_pattern e base) st pats)).
            \<exists>m. f = str_path (parse_path m) \<and> a = str_path (arcname_of base (parse_path m)))"
  using assms
proof (induction pats arbitrary: st)
  case Nil
  then show ?case by simp
next
  case (Cons pat pats)
  from add_pattern_inv [OF Cons.prems, of e pat] show ?case
    by (simp only: foldl_Cons) (intro Cons.IH, simp_all)
qed

text \<open>Nothing is taken out of the archive, and nothing printed is taken back.\<close>

lemma foldl_add_match_added:
  "added_files (foldl (add_match base) st ms)
     = added_files st \<union> (\<lambda>m. str_path (parse_path m)) ` set ms"
  by (induction ms arbitrary: st) (auto simp: add_match_added)

lemma add_pattern_added:
  "added_files (add_pattern e base st pat)
     = added_files st \<union> (\<lambda>m. str_path (parse_path m)) ` set (glob e (str_path (joinpath base pat)))"
  by (simp add: add_pattern_def Let_def foldl_add_match_added)

lemma foldl_add_pattern_added:
  "added_files (foldl (add_pattern e base) st pats)
     = added_files st \<union>
       (\<Union>pat \<in> set pats. (\<lambda>m. str_path (parse_path m)) ` set (glob e (str_path (joinpath base pat))))"
  by (induction pats arbitrary: st) (auto simp: add_pattern_added)

lemma add_pattern_printed:
  "printed (add_pattern e base st pat)
     = printed st @ (if glob e (str_path (joinpath base pat)) = []
                     then [NoFilesMatch pat (str_path base)] else [])"
  by (simp add: add_pattern_def Let_def foldl_add_match_printed)

lemma foldl_add_pattern_printed:
  "printed (foldl (add_pattern e base) st pats)
     = printed st @ map (\<lambda>pat. NoFilesMatch pat (str_path base))
         (filter (\<lambda>pat. glob e (str_path (joinpath base pat)) = []) pats)"
  by (induction pats arbitrary: st) (simp_all add: add_pattern_printed)


lemma create_data_zip_written:
  "written (create_data_zip e pats zn base)
     = written (foldl (add_pattern e base) \<lparr>written = [], added_files = {}, printed = []\<rparr> pats)"
  by (simp add: create_data_zip_def Let_def)

lemma create_data_zip_added:
  "added_files (create_data_zip e pats zn base)
     = (\<Union>pat \<in> set pats. (\<lambda>m. str_path (parse_path m)) ` set (glob e (str_path (joinpath base pat))))"
  by (simp add: create_data_zip_def Let_def foldl_add_pattern_added)

lemma create_data_zip_printed:
  "printed (create_data_zip e pats zn base)
     = map (\<lambda>pat. NoFilesMatch pat (str_path base))
         (filter (\<lambda>pat. glob e (str_path (joinpath base pat)) = []) pats)
       @ [CreatedZip zn (card (added_files (create_data_zip e pats zn base)))]"
  by (simp add: create_data_zip_def Let_def foldl_add_pattern_printed)

lemma create_data_zip_inv:
  "added_files (create_data_zip e pats zn base) = fst ` set (written (create_data_zip e pats zn base)) \<and>
   distinct (map fst (written (create_data_zip e pats zn base))) \<and>
   (\<forall>(f, a) \<in> set (written (create_data_zip e pats zn base)).
      \<exists>m. f = str_path (parse_path m) \<and> a = str_path (arcname_of base (parse_path m)))"
proof -
  have "added_files (foldl (add_pattern e base) \<lparr>written = [], added_files = {}, printed = []\<rparr> pats)
      = fst ` set (written (foldl (add_pattern e base) \<lparr>written = [], added_files = {}, printed = []\<rparr> pats)) \<and>
    distinct (map fst (written (foldl (add_pattern e base) \<lparr>written = [], added_files = {}, printed = []\<rparr> pats))) \<and>
    (\<forall>(f, a) \<in> set (written (foldl (add_pattern e base) \<lparr>written = [], added_files = {}, printed = []\<rparr> pats)).
      \<exists>m. f = str_path (parse_path m) \<and> a = str_path (arcname_of base (parse_path m)))"
    by (rule foldl_add_pattern_inv) simp_all
  then show ?thesis
    by (simp add: create_data_zip_def Let_def)
qed

lemma relative_to_Inr:
  assumes "relative_to p other = Inr q"
  shows "abs_parts p = abs_parts other @ abs_parts q \<and> (\<exists>parts. q = Path False parts)"
proof -
  let ?n = "length (abs_parts other)"
  from assms have q: "q = Path False (drop ?n (abs_parts p))"
    by (auto simp: relative_to_def Let_def split: if_splits)
  from assms have "take ?n (abs_parts p) = abs_parts other"
    by (auto simp: relative_to_def Let_def split: if_splits)
  then have "abs_parts p = abs_parts other @ drop ?n (abs_parts p)"
    by (metis append_take_drop_id)
  with q show ?thesis by simp
qed


lemma example_zip_written:
  "written (create_data_zip example_env [''data/*.pdf'', ''data/a.*'', ''missing/*''] ''intro-data.zip''
          (Path False [''intro'']))
       = [(''intro/data/a.pdf'', ''data/a.pdf''), (''intro/data/b.pdf'', ''data/b.pdf'')]"
  by code_simp

lemma example_zip_printed:
  "printed (create_data_zip example_env [''data/*.pdf'', ''data/a.*'', ''missing/*''] ''intro-data.zip''
          (Path False [''intro'']))
       = [NoFilesMatch ''missing/*'' ''intro'', CreatedZip ''intro-data.zip'' 2]"
  by code_simp

text \<open>
  Claim C4, as it stands, fails for a file that does not lie under the document's
  directory: \<^verbatim>\<open>relative_to\<close> raises \<^verbatim>\<open>ValueError\<close>, and the \<^verbatim>\<open>except\<close> branch takes the
  file's own path as the archive path. Here the pattern is an absolute path, the
  document's directory is \<^verbatim>\<open>intro\<close>.
\<close>

theorem absolute_pattern_arcname_counterexample:
  "''/srv/shared/big.csv''
     \<in> set (glob example_env (str_path (joinpath (Path False [''intro'']) ''/srv/shared/big.csv''))) \<and>
   written (create_data_zip example_env [''/srv/shared/big.csv''] ''intro-data.zip'' (Path False [''intro'']))
     = [(''/srv/shared/big.csv'', ''/srv/shared/big.csv'')] \<and>
   relative_to (parse_path ''/srv/shared/big.csv'') (Path False [''intro'']) = Inl ValueError"
  by code_simp

text \<open>
  Claim C4, amended. For every pattern of the list and every file it matches, the
  archive holds the file. Its archive path is the file's path relative to the
  document's directory when the file's path lies under that directory (the parts of the
  directory followed by the parts of the archive path are the parts of the file's
  path), and the file's own path otherwise.
\<close>

theorem matched_file_in_archive:
  assumes "pattern \<in> set data_patterns"
    and "m \<in> set (glob e (str_path (joinpath base_dir pattern)))"
  shows "(str_path (parse_path m), str_path (arcname_of base_dir (parse_path m)))
           \<in> set (written (create_data_zip e data_patterns zip_name base_dir)) \<and>
         (\<forall>p. relative_to (parse_path m) base_dir = Inr p \<longrightarrow>
            arcname_of base_dir (parse_path m) = p \<and>
            abs_parts (parse_path m) = abs_parts base_dir @ abs_parts p \<and>
            (\<exists>parts. p = Path False parts)) \<and>
         (\<forall>err. relative_to (parse_path m) base_dir = Inl err \<longrightarrow>
            arcname_of base_dir (parse_path m) = parse_path m)"
proof -
  let ?z = "create_data_zip e data_patterns zip_name base_dir"
  let ?f = "str_path (parse_path m)"
  from assms have "?f \<in> added_files ?z"
    unfolding create_data_zip_added by blast
  with create_data_zip_inv [of e data_patterns zip_name base_dir]
  obtain a where a: "(?f, a) \<in> set (written ?z)"
    by auto
  with create_data_zip_inv [of e data_patterns zip_name base_dir]
  obtain m' where f: "?f = str_path (parse_path m')"
    and a': "a = str_path (arcname_of base_dir (parse_path m'))"
    by blast
  from f have "parse_path m = parse_path m'"
    by (rule str_path_parse_inj)
  with a a' have "(?f, str_path (arcname_of base_dir (parse_path m))) \<in> set (written ?z)"
    by simp
  moreover have "arcname_of base_dir (parse_path m) = p \<and>
      abs_parts (parse_path m) = abs_parts base_dir @ abs_parts p \<and> (\<exists>parts. p = Path False parts)"
    if "relative_to (parse_path m) base_dir = Inr p" for p
    using that relative_to_Inr [OF that] by (simp add: arcname_of_def)
  moreover have "arcname_of base_dir (parse_path m) = parse_path m"
    if "relative_to (parse_path m) base_dir = Inl err" for err
    using that by (simp add: arcname_of_def)
  ultimately show ?thesis by blast
qed

text \<open>The theorem at the example: a file matched by the second of two patterns.\<close>

theorem matched_file_in_archive_witness:
  "''data/a.*'' \<in> set [''data/*.pdf'', ''data/a.*'', ''missing/*''] \<and>
   ''intro/data/a.pdf''
     \<in> set (glob example_env (str_path (joinpath (Path False [''intro'']) ''data/a.*''))) \<and>
   relative_to (parse_path ''intro/data/a.pdf'') (Path False [''intro''])
     = Inr (Path False [''data'', ''a.pdf'']) \<and>
   (''intro/data/a.pdf'', ''data/a.pdf'')
     \<in> set (written (create_data_zip example_env [''data/*.pdf'', ''data/a.*'', ''missing/*'']
                 ''intro-data.zip'' (Path False [''intro''])))"
proof -
  have 1: "''data/a.*'' \<in> set [''data/*.pdf'', ''data/a.*'', ''missing/*'']"
    by simp
  have 2: "''intro/data/a.pdf''
      \<in> set (glob example_env (str_path (joinpath (Path False [''intro'']) ''data/a.*'')))"
    by code_simp
  have 3: "relative_to (parse_path ''intro/data/a.pdf'') (Path False [''intro''])
      = Inr (Path False [''data'', ''a.pdf''])"
    by code_simp
  have 4: "str_path (parse_path ''intro/data/a.pdf'') = ''intro/data/a.pdf''"
    by code_simp
  have 5: "str_path (Path False [''data'', ''a.pdf'']) = ''data/a.pdf''"
    by code_simp
  note th = matched_file_in_archive [OF 1 2, of "''intro-data.zip''"]
  from th 3 have "arcname_of (Path False [''intro'']) (parse_path ''intro/data/a.pdf'')
      = Path False [''data'', ''a.pdf'']"
    by blast
  with th [THEN conjunct1] 4 5 have "(''intro/data/a.pdf'', ''data/a.pdf'')
     \<in> set (written (create_data_zip example_env [''data/*.pdf'', ''data/a.*'', ''missing/*'']
                 ''intro-data.zip'' (Path False [''intro''])))"
    by (simp only:)
  with 1 2 3 show ?thesis by (simp only: simp_thms)
qed

text \<open>
  Claim C5. Whatever the patterns, no file path is written into the archive twice; a
  pattern that matches nothing leaves its warning among the printed lines; and the
  function comes to its last line, which reports the archive with the number of files
  written.
\<close>

theorem create_data_zip_dedup_and_warn:
  "distinct (map fst (written (create_data_zip e data_patterns zip_name base_dir))) \<and>
   (\<forall>pattern \<in> set data_patterns.
      glob e (str_path (joinpath base_dir pattern)) = [] \<longrightarrow>
      NoFilesMatch pattern (str_path base_dir)
        \<in> set (printed (create_data_zip e data_patterns zip_name base_dir))) \<and>
   last (printed (create_data_zip e data_patterns zip_name base_dir))
     = CreatedZip zip_name (length (written (create_data_zip e data_patterns zip_name base_dir)))"
proof -
  let ?z = "create_data_zip e data_patterns zip_name base_dir"
  note inv = create_data_zip_inv [of e data_patterns zip_name base_dir]
  from inv have d: "distinct (map fst (written ?z))" by blast
  from inv have "card (added_files ?z) = card (set (map fst (written ?z)))" by simp
  also from d have "\<dots> = length (written ?z)"
    using distinct_card [of "map fst (written ?z)"] by simp
  finally have c: "card (added_files ?z) = length (written ?z)" .
  have "last (printed ?z) = CreatedZip zip_name (card (added_files ?z))"
    by (subst create_data_zip_printed) simp
  with c have l: "last (printed ?z) = CreatedZip zip_name (length (written ?z))" by simp
  have "NoFilesMatch pattern (str_path base_dir) \<in> set (printed ?z)"
    if "pattern \<in> set data_patterns" "glob e (str_path (joinpath base_dir pattern)) = []" for pattern
    using that by (subst create_data_zip_printed) simp
  with d l show ?thesis by blast
qed

text \<open>
  The theorem at the example: \<^verbatim>\<open>a.pdf\<close> is matched by two patterns and written once, and
  the third pattern matches nothing.
\<close>

theorem create_data_zip_dedup_and_warn_witness:
  "glob example_env (str_path (joinpath (Path False [''intro'']) ''missing/*'')) = [] \<and>
   written (create_data_zip example_env [''data/*.pdf'', ''data/a.*'', ''missing/*''] ''intro-data.zip''
          (Path False [''intro'']))
     = [(''intro/data/a.pdf'', ''data/a.pdf''), (''intro/data/b.pdf'', ''data/b.pdf'')] \<and>
   distinct (map fst (written (create_data_zip example_env [''data/*.pdf'', ''data/a.*'', ''missing/*'']
          ''intro-data.zip'' (Path False [''intro''])))) \<and>
   NoFilesMatch ''missing/*'' ''intro''
     \<in> set (printed (create_data_zip example_env [''data/*.pdf'', ''data/a.*'', ''missing/*'']
          ''intro-data.zip'' (Path False [''intro''])))"
proof -
  have 1: "glob example_env (str_path (joinpath (Path False [''intro'']) ''missing/*'')) = []"
    by code_simp
  have 2: "str_path (Path False [''intro'']) = ''intro''"
    by code_simp
  note th = create_data_zip_dedup_and_warn [of example_env
      "[''data/*.pdf'', ''data/a.*'', ''missing/*'']" "''intro-data.zip''" "Path False [''intro'']"]
  from th have d: "distinct (map fst (written (create_data_zip example_env
      [''data/*.pdf'', ''data/a.*'', ''missing/*''] ''intro-data.zip'' (Path False [''intro'']))))"
    by (rule conjunct1)
  from th [THEN conjunct2, THEN conjunct1, rule_format, of "''missing/*''"] 1 2
  have w: "NoFilesMatch ''missing/*'' ''intro''
     \<in> set (printed (create_data_zip example_env [''data/*.pdf'', ''data/a.*'', ''missing/*'']
          ''intro-data.zip'' (Path False [''intro''])))"
    by simp
  from 1 example_zip_written d w show ?thesis by (simp only: simp_thms)
qed

end
